theory Spec2Isabelle
  imports Main "HOL-Library.Sublist"
begin

section \<open>JavaScript values\<close>

text \<open>
  The component \<^verbatim>\<open>Processes\<close> (src/app/sites/processes/processes.ts) works on
  untyped data (\<^verbatim>\<open>any\<close>): JSON answers of the backend and view-model objects built
  from them. Values are modelled as trees. Strings are ASCII character lists.

  A number is \<^verbatim>\<open>NaN\<close>, an infinity, or a decimal \<open>Dec m e\<close> standing for
  \<open>m * 10 ^ e\<close>. Every number of this program is an integer or the value of a decimal
  literal, so the type is closed under what the program computes. The rounding of a
  literal to binary64 is not modelled (the exact decimal value is kept), and the two
  zeros of JavaScript are one value.
\<close>

datatype jsnum = NaN | PosInf | NegInf | Dec int int

datatype jsval =
    JUndefined
  | JNull
  | JBool bool
  | JNum jsnum
  | JStr string
  | JArr "jsval list"
  | JObj "(string \<times> jsval) list"

text \<open>The only exception the modelled code can raise.\<close>

datatype exn = TypeError

subsection \<open>Number to string (ECMAScript Number::toString, radix 10)\<close>

definition digit_char :: "nat \<Rightarrow> char" where
  "digit_char d = ''0123456789'' ! (d mod 10)"

fun showNat :: "nat \<Rightarrow> string" where
  "showNat n = (if n < 10 then [digit_char n] else showNat (n div 10) @ [digit_char (n mod 10)])"

declare showNat.simps [simp del]

text \<open>
  \<open>strip_zeros m e\<close> removes the trailing zeros of a positive mantissa: the digits
  \<open>s\<close> of Number::toString are the shortest ones.
\<close>

fun strip_zeros :: "nat \<Rightarrow> int \<Rightarrow> nat \<times> int" where
  "strip_zeros m e = (if m \<noteq> 0 \<and> m mod 10 = 0 then strip_zeros (m div 10) (e + 1) else (m, e))"

declare strip_zeros.simps [simp del]

definition showExp :: "int \<Rightarrow> string" where
  "showExp x = (if x < 0 then ''e-'' else ''e+'') @ showNat (nat \<bar>x\<bar>)"

text \<open>
  \<open>showPos m e\<close> prints the positive number \<open>m * 10 ^ e\<close>. With \<open>ds\<close> the \<open>k\<close>
  digits of the stripped mantissa and \<open>n = e + k\<close>, the four layouts are those of
  steps 6 to 10 of Number::toString.
\<close>

definition showPos :: "nat \<Rightarrow> int \<Rightarrow> string" where
  "showPos m e =
     (let (s, e') = strip_zeros m e;
          ds = showNat s;
          k = int (length ds);
          n = e' + k
      in if k \<le> n \<and> n \<le> 21 then ds @ replicate (nat (n - k)) CHR ''0''
         else if 0 < n \<and> n \<le> 21 then take (nat n) ds @ ''.'' @ drop (nat n) ds
         else if -6 < n \<and> n \<le> 0 then ''0.'' @ replicate (nat (- n)) CHR ''0'' @ ds
         else if k = 1 then ds @ showExp (n - 1)
         else take 1 ds @ ''.'' @ drop 1 ds @ showExp (n - 1))"

fun numToString :: "jsnum \<Rightarrow> string" where
  "numToString NaN = ''NaN''"
| "numToString PosInf = ''Infinity''"
| "numToString NegInf = ''-Infinity''"
| "numToString (Dec m e) =
     (if m = 0 then ''0''
      else if m < 0 then ''-'' @ showPos (nat (- m)) e
      else showPos (nat m) e)"

declare numToString.simps [simp del]


subsection \<open>Truthiness, nullish values, property reads\<close>

fun truthy :: "jsval \<Rightarrow> bool" where
  "truthy JUndefined = False"
| "truthy JNull = False"
| "truthy (JBool b) = b"
| "truthy (JNum NaN) = False"
| "truthy (JNum PosInf) = True"
| "truthy (JNum NegInf) = True"
| "truthy (JNum (Dec m e)) = (m \<noteq> 0)"
| "truthy (JStr s) = (s \<noteq> '''')"
| "truthy (JArr xs) = True"
| "truthy (JObj kvs) = True"

fun nullish :: "jsval \<Rightarrow> bool" where
  "nullish JUndefined = True"
| "nullish JNull = True"
| "nullish v = False"

text \<open>\<^verbatim>\<open>a ?? b\<close>\<close>

definition coalesce :: "jsval \<Rightarrow> jsval \<Rightarrow> jsval" where
  "coalesce a b = (if nullish a then b else a)"

text \<open>
  An object is its list of own properties, in insertion order, each key once (as
  \<^verbatim>\<open>JSON.parse\<close> and object literals build it); a lookup takes the first binding.
\<close>

definition own :: "(string \<times> jsval) list \<Rightarrow> string \<Rightarrow> jsval" where
  "own kvs k = (case map_of kvs k of Some v \<Rightarrow> v | None \<Rightarrow> JUndefined)"

text \<open>
  \<open>getProp v k\<close> is the read \<^verbatim>\<open>v.k\<close> on a value that is neither null nor undefined,
  for the property names this component reads (id, name, workflow, tags, active,
  description, parameters, executionBrief, status, startedAt, success, message, error,
  statusText, type, value): none of them is inherited from a built-in prototype, so
  the read yields the own property of an object and \<^verbatim>\<open>undefined\<close> on every other value.
\<close>

fun getProp :: "jsval \<Rightarrow> string \<Rightarrow> jsval" where
  "getProp (JObj kvs) k = own kvs k"
| "getProp v k = JUndefined"

text \<open>\<^verbatim>\<open>v.k\<close>: a TypeError on null and undefined.\<close>

definition get :: "jsval \<Rightarrow> string \<Rightarrow> exn + jsval" where
  "get v k = (if nullish v then Inl TypeError else Inr (getProp v k))"

text \<open>\<^verbatim>\<open>v?.k\<close>\<close>

definition opt_get :: "jsval \<Rightarrow> string \<Rightarrow> jsval" where
  "opt_get v k = (if nullish v then JUndefined else getProp v k)"

text \<open>
  \<^verbatim>\<open>o.k = v\<close> on an own-property list: an existing key keeps its place, a new one is
  appended.
\<close>

fun set_own :: "(string \<times> jsval) list \<Rightarrow> string \<Rightarrow> jsval \<Rightarrow> (string \<times> jsval) list" where
  "set_own [] k v = [(k, v)]"
| "set_own ((k', v') # kvs) k v =
     (if k' = k then (k, v) # kvs else (k', v') # set_own kvs k v)"

definition isArray :: "jsval \<Rightarrow> bool" where
  "isArray v = (case v of JArr xs \<Rightarrow> True | _ \<Rightarrow> False)"

definition elements :: "jsval \<Rightarrow> jsval list" where
  "elements v = (case v of JArr xs \<Rightarrow> xs | _ \<Rightarrow> [])"

subsection \<open>Exceptions in sequence\<close>

text \<open>Evaluating a list of computations from left to right: the first exception wins.\<close>

fun sequence :: "(exn + 'a) list \<Rightarrow> exn + 'a list" where
  "sequence [] = Inr []"
| "sequence (r # rs) =
     (case r of
        Inl e \<Rightarrow> Inl e
      | Inr x \<Rightarrow> (case sequence rs of Inl e \<Rightarrow> Inl e | Inr xs \<Rightarrow> Inr (x # xs)))"

text \<open>
  \<^verbatim>\<open>Array.prototype.some\<close>: the callback runs on the elements in order until it
  returns true or throws.
\<close>

fun some :: "(jsval \<Rightarrow> exn + bool) \<Rightarrow> jsval list \<Rightarrow> exn + bool" where
  "some f [] = Inr False"
| "some f (x # xs) =
     (case f x of
        Inl e \<Rightarrow> Inl e
      | Inr b \<Rightarrow> if b then Inr True else some f xs)"

text \<open>\<^verbatim>\<open>Array.prototype.findIndex\<close>, with \<open>None\<close> for -1.\<close>

fun findIndex :: "('a \<Rightarrow> bool) \<Rightarrow> 'a list \<Rightarrow> nat option" where
  "findIndex f [] = None"
| "findIndex f (x # xs) =
     (if f x then Some 0 else map_option Suc (findIndex f xs))"

subsection \<open>Conversion to string\<close>

fun commaJoin :: "string list \<Rightarrow> string" where
  "commaJoin [] = ''''"
| "commaJoin [s] = s"
| "commaJoin (s # ss) = s @ '','' @ commaJoin ss"

text \<open>
  \<open>toString v\<close> is the method call \<^verbatim>\<open>v.toString()\<close>, which is also what ToString
  gives on a value that is neither null nor undefined. On null and undefined the call
  is a TypeError. An array joins its elements with commas, null and undefined
  elements giving the empty string. A data object prints \<^verbatim>\<open>[object Object]\<close>; when
  it has an own property \<^verbatim>\<open>toString\<close> (data, so not callable) the call is a
  TypeError, and so is the conversion of such an object inside an array.
\<close>

fun toString :: "jsval \<Rightarrow> exn + string" where
  "toString JUndefined = Inl TypeError"
| "toString JNull = Inl TypeError"
| "toString (JBool b) = Inr (if b then ''true'' else ''false'')"
| "toString (JNum n) = Inr (numToString n)"
| "toString (JStr s) = Inr s"
| "toString (JArr xs) =
     (case sequence (map (\<lambda>x. if nullish x then Inr '''' else toString x) xs) of
        Inl e \<Rightarrow> Inl e
      | Inr ss \<Rightarrow> Inr (commaJoin ss))"
| "toString (JObj kvs) =
     (if ''toString'' \<in> fst ` set kvs then Inl TypeError else Inr ''[object Object]'')"

text \<open>The function call \<^verbatim>\<open>String(v)\<close>.\<close>

definition String :: "jsval \<Rightarrow> exn + string" where
  "String v =
     (case v of
        JUndefined \<Rightarrow> Inr ''undefined''
      | JNull \<Rightarrow> Inr ''null''
      | _ \<Rightarrow> toString v)"

text \<open>
  \<^verbatim>\<open>String.prototype.toLowerCase\<close> on ASCII text: the letters A to Z are mapped, every
  other character is kept.
\<close>

definition toLowerChar :: "char \<Rightarrow> char" where
  "toLowerChar c =
     (case map_of (zip ''ABCDEFGHIJKLMNOPQRSTUVWXYZ'' ''abcdefghijklmnopqrstuvwxyz'') c of
        Some l \<Rightarrow> l
      | None \<Rightarrow> c)"

definition toLowerCase :: "string \<Rightarrow> string" where
  "toLowerCase s = map toLowerChar s"

subsection \<open>Conversion to number\<close>

text \<open>
  StringToNumber of ECMAScript: white space is trimmed; the empty string is 0; the
  rest must be a StrNumericLiteral (an optionally signed decimal literal or
  \<^verbatim>\<open>Infinity\<close>, or an unsigned hexadecimal, octal or binary integer), else the result
  is NaN.
\<close>

definition isWhiteSpace :: "char \<Rightarrow> bool" where
  "isWhiteSpace c = (c \<in> set [CHR 0x09, CHR 0x0A, CHR 0x0B, CHR 0x0C, CHR 0x0D, CHR '' ''])"

definition trim :: "string \<Rightarrow> string" where
  "trim s = rev (dropWhile isWhiteSpace (rev (dropWhile isWhiteSpace s)))"

definition isDigit :: "char \<Rightarrow> bool" where
  "isDigit c = (c \<in> set ''0123456789'')"

definition digitVal :: "char \<Rightarrow> nat" where
  "digitVal c =
     (case map_of (zip ''0123456789abcdefABCDEF''
                       [0, 1, 2, 3, 4, 5, 6, 7, 8, 9, 10, 11, 12, 13, 14, 15, 10, 11, 12, 13, 14, 15]) c of
        Some d \<Rightarrow> d
      | None \<Rightarrow> 0)"

definition digitsVal :: "nat \<Rightarrow> string \<Rightarrow> nat" where
  "digitsVal base ds = foldl (\<lambda>a c. a * base + digitVal c) 0 ds"

text \<open>The text after the mantissa: nothing, or an ExponentPart.\<close>

definition parseExponent :: "string \<Rightarrow> int option" where
  "parseExponent r =
     (case r of
        [] \<Rightarrow> Some 0
      | c # t \<Rightarrow>
          if c = CHR ''e'' \<or> c = CHR ''E'' then
            (let neg = (t \<noteq> [] \<and> hd t = CHR ''-'');
                 ds = (if t \<noteq> [] \<and> (hd t = CHR ''-'' \<or> hd t = CHR ''+'') then tl t else t)
             in if ds \<noteq> [] \<and> list_all isDigit ds
                then Some ((if neg then - 1 else 1) * int (digitsVal 10 ds))
                else None)
          else None)"

text \<open>StrUnsignedDecimalLiteral; \<open>None\<close> when the text is not one.\<close>

definition parseUnsigned :: "string \<Rightarrow> jsnum option" where
  "parseUnsigned s =
     (if s = ''Infinity'' then Some PosInf
      else
        let ip = takeWhile isDigit s;
            r1 = dropWhile isDigit s;
            dot = (r1 \<noteq> [] \<and> hd r1 = CHR ''.'');
            fp = (if dot then takeWhile isDigit (tl r1) else []);
            r2 = (if dot then dropWhile isDigit (tl r1) else r1)
        in if ip = [] \<and> fp = [] then None
           else (case parseExponent r2 of
                   None \<Rightarrow> None
                 | Some x \<Rightarrow> Some (Dec (int (digitsVal 10 (ip @ fp))) (x - int (length fp)))))"

fun negate :: "jsnum \<Rightarrow> jsnum" where
  "negate NaN = NaN"
| "negate PosInf = NegInf"
| "negate NegInf = PosInf"
| "negate (Dec m e) = Dec (- m) e"

text \<open>StrDecimalLiteral: an optional sign, then the unsigned literal.\<close>

definition parseDecimal :: "string \<Rightarrow> jsnum option" where
  "parseDecimal s =
     (if s \<noteq> [] \<and> hd s = CHR ''-'' then map_option negate (parseUnsigned (tl s))
      else if s \<noteq> [] \<and> hd s = CHR ''+'' then parseUnsigned (tl s)
      else parseUnsigned s)"

text \<open>NonDecimalIntegerLiteral: \<^verbatim>\<open>0x\<close>, \<^verbatim>\<open>0o\<close> or \<^verbatim>\<open>0b\<close> and at least one digit.\<close>

definition parseNonDecimal :: "string \<Rightarrow> jsnum option" where
  "parseNonDecimal s =
     (case s of
        z # x # ds \<Rightarrow>
          if z = CHR ''0'' \<and> ds \<noteq> [] then
            (if (x = CHR ''x'' \<or> x = CHR ''X'') \<and> list_all (\<lambda>c. c \<in> set ''0123456789abcdefABCDEF'') ds
               then Some (Dec (int (digitsVal 16 ds)) 0)
             else if (x = CHR ''o'' \<or> x = CHR ''O'') \<and> list_all (\<lambda>c. c \<in> set ''01234567'') ds
               then Some (Dec (int (digitsVal 8 ds)) 0)
             else if (x = CHR ''b'' \<or> x = CHR ''B'') \<and> list_all (\<lambda>c. c \<in> set ''01'') ds
               then Some (Dec (int (digitsVal 2 ds)) 0)
             else None)
          else None
      | _ \<Rightarrow> None)"

definition StringToNumber :: "string \<Rightarrow> jsnum" where
  "StringToNumber s =
     (let t = trim s in
      if t = '''' then Dec 0 0
      else (case parseNonDecimal t of
              Some n \<Rightarrow> n
            | None \<Rightarrow> (case parseDecimal t of Some n \<Rightarrow> n | None \<Rightarrow> NaN)))"

text \<open>
  The function call \<^verbatim>\<open>Number(v)\<close>. An array or object is converted through its
  string form (its \<^verbatim>\<open>valueOf\<close> is not a primitive), with the TypeError of \<open>toString\<close>.
\<close>

fun Number :: "jsval \<Rightarrow> exn + jsnum" where
  "Number JUndefined = Inr NaN"
| "Number JNull = Inr (Dec 0 0)"
| "Number (JBool b) = Inr (Dec (if b then 1 else 0) 0)"
| "Number (JNum n) = Inr n"
| "Number (JStr s) = Inr (StringToNumber s)"
| "Number v = (case toString v of Inl e \<Rightarrow> Inl e | Inr s \<Rightarrow> Inr (StringToNumber s))"

definition isNaN :: "jsnum \<Rightarrow> bool" where
  "isNaN n = (n = NaN)"

subsection \<open>Strict equality\<close>

text \<open>
  Numbers are compared by value, and NaN equals nothing. Two arrays or objects are
  equal only when they are the same object: the value model does not track object
  identity, and \<open>strict_eq\<close> answers \<open>False\<close> for them, so it is to be used on
  primitive operands only.
\<close>

fun num_eq :: "jsnum \<Rightarrow> jsnum \<Rightarrow> bool" where
  "num_eq NaN y = False"
| "num_eq x NaN = False"
| "num_eq (Dec a e) (Dec b f) =
     (a * 10 ^ nat (e - min e f) = b * 10 ^ nat (f - min e f))"
| "num_eq (Dec a e) y = False"
| "num_eq x (Dec b f) = False"
| "num_eq x y = (x = y)"

fun is_primitive :: "jsval \<Rightarrow> bool" where
  "is_primitive (JArr xs) = False"
| "is_primitive (JObj kvs) = False"
| "is_primitive v = True"

fun strict_eq :: "jsval \<Rightarrow> jsval \<Rightarrow> bool" where
  "strict_eq (JNum x) (JNum y) = num_eq x y"
| "strict_eq (JArr xs) v = False"
| "strict_eq (JObj kvs) v = False"
| "strict_eq u v = (u = v)"

text \<open>
  \<^verbatim>\<open>{ ...v }\<close>: the own enumerable properties of \<open>v\<close>. An array or a string spreads
  its elements under their indices; null, undefined, booleans and numbers have none.
\<close>

definition spread :: "jsval \<Rightarrow> (string \<times> jsval) list" where
  "spread v =
     (case v of
        JObj kvs \<Rightarrow> kvs
      | JArr xs \<Rightarrow> zip (map showNat [0..<length xs]) xs
      | JStr s \<Rightarrow> zip (map showNat [0..<length s]) (map (\<lambda>c. JStr [c]) s)
      | _ \<Rightarrow> [])"


section \<open>The component\<close>

subsection \<open>View model and state\<close>

text \<open>
  The object literal built in \<^verbatim>\<open>loadProcesses\<close> fixes the shape of a list entry. The
  fields copied from the backend keep whatever value it sent; \<^verbatim>\<open>active\<close> is one of two
  strings and \<^verbatim>\<open>canExecute\<close> is a boolean by construction.
\<close>

record ProcessRecord =
  id' :: jsval
  name :: jsval
  workflowName :: jsval
  description :: jsval
  parameters :: jsval
  active :: string
  status :: jsval
  startedAt :: jsval
  canExecute :: bool

text \<open>The body of a partial update.\<close>

record PatchBody =
  body_name :: jsval
  body_description :: jsval
  body_parameters :: "jsval list"

datatype request = GetProcesses | StartProcess string | PatchProcess string PatchBody

text \<open>
  The fields of the class, followed by what it does to its collaborators: \<open>inflight\<close>
  holds the requests handed to \<^verbatim>\<open>ProcessService\<close> and not answered yet, \<open>snackBar\<close>
  the calls of \<^verbatim>\<open>snackBar.open(message, action, {duration})\<close>, \<open>console\<close> the calls
  of \<^verbatim>\<open>console.error\<close>. \<^verbatim>\<open>processes\<close> is declared an array and only ever assigned
  one, so it is a list here.
\<close>

record component =
  processes :: "ProcessRecord list"
  loading :: bool
  error :: "string option"
  showOnlyExecutable :: bool
  startingProcessIds :: "string set"
  selectedProcess :: "ProcessRecord option"
  editedProcess :: "ProcessRecord option"
  editedParameters :: "jsval list"
  inflight :: "request list"
  snackBar :: "(jsval \<times> string \<times> nat) list"
  console :: "(string \<times> jsval) list"

definition initial :: component where
  "initial =
     \<lparr>processes = [], loading = False, error = None, showOnlyExecutable = False,
      startingProcessIds = {}, selectedProcess = None, editedProcess = None,
      editedParameters = [], inflight = [], snackBar = [], console = []\<rparr>"

text \<open>
  A method or callback either returns or throws; both leave a state behind, the one
  reached when the exception was raised.
\<close>

datatype 'a outcome = Returns 'a | Throws exn 'a

fun state_of :: "'a outcome \<Rightarrow> 'a" where
  "state_of (Returns c) = c"
| "state_of (Throws e c) = c"

subsection \<open>Filter\<close>

text \<open>
  The getter \<^verbatim>\<open>displayedProcesses\<close>. It assigns nothing, so it is a function of the
  state. Its first line, \<^verbatim>\<open>if (!this.processes) return []\<close>, never fires on an array
  (every array is truthy). \<^verbatim>\<open>!!p.canExecute\<close> is the boolean field itself.
\<close>

definition displayedProcesses :: "component \<Rightarrow> ProcessRecord list" where
  "displayedProcesses c =
     (if \<not> showOnlyExecutable c then processes c
      else filter (\<lambda>p. canExecute p) (processes c))"

definition toggleEjecutable :: "component \<Rightarrow> component" where
  "toggleEjecutable c = c\<lparr>showOnlyExecutable := \<not> showOnlyExecutable c\<rparr>"

subsection \<open>Loader\<close>

text \<open>
  The callback of \<^verbatim>\<open>some\<close>:
  \<^verbatim>\<open>(t?.name ?? '').toString().toLowerCase() === 'webhook'\<close>.
\<close>

definition tagName :: "jsval \<Rightarrow> exn + string" where
  "tagName t = toString (coalesce (opt_get t ''name'') (JStr ''''))"

definition isWebhookTag :: "jsval \<Rightarrow> exn + bool" where
  "isWebhookTag t =
     (case tagName t of
        Inl e \<Rightarrow> Inl e
      | Inr s \<Rightarrow> Inr (toLowerCase s = ''webhook''))"

text \<open>
  \<^verbatim>\<open>!!p.workflow?.tags && Array.isArray(p.workflow.tags) && p.workflow.tags.some(...)\<close>
  for a record \<open>p\<close> that is neither null nor undefined. The second and third operands
  run only when the tags are truthy, hence the workflow present.
\<close>

definition canExecuteOf :: "jsval \<Rightarrow> exn + bool" where
  "canExecuteOf p =
     (let tags = opt_get (getProp p ''workflow'') ''tags'' in
      if \<not> truthy tags then Inr False
      else if \<not> isArray tags then Inr False
      else some isWebhookTag (elements tags))"

text \<open>
  The arrow function of \<^verbatim>\<open>res.map\<close>. Reading \<^verbatim>\<open>p.id\<close> on null or undefined throws.
\<close>

definition mapProcess :: "jsval \<Rightarrow> exn + ProcessRecord" where
  "mapProcess p =
     (if nullish p then Inl TypeError
      else (case canExecuteOf p of
              Inl e \<Rightarrow> Inl e
            | Inr ce \<Rightarrow>
                Inr \<lparr>id' = getProp p ''id'',
                     name = getProp p ''name'',
                     workflowName = coalesce (opt_get (getProp p ''workflow'') ''name'') (JStr ''''),
                     description = getProp p ''description'',
                     parameters = coalesce (getProp p ''parameters'') (JArr []),
                     active = (if truthy (opt_get (getProp p ''workflow'') ''active'')
                               then ''Proceso Activo'' else ''Proceso Inactivo''),
                     status = coalesce (opt_get (getProp p ''executionBrief'') ''status'') (JStr ''''),
                     startedAt = coalesce (opt_get (getProp p ''executionBrief'') ''startedAt'') JNull,
                     canExecute = ce\<rparr>))"

text \<open>\<^verbatim>\<open>loadProcesses()\<close> sends the request; its callback replaces the list.\<close>

definition loadProcesses :: "component \<Rightarrow> component" where
  "loadProcesses c = c\<lparr>inflight := inflight c @ [GetProcesses]\<rparr>"

definition loadProcesses_next :: "component \<Rightarrow> jsval list \<Rightarrow> component outcome" where
  "loadProcesses_next c res =
     (case sequence (map mapProcess res) of
        Inl e \<Rightarrow> Throws e c
      | Inr ps \<Rightarrow> Returns (c\<lparr>processes := ps\<rparr>))"

definition ngOnInit :: "component \<Rightarrow> component" where
  "ngOnInit c = loadProcesses c"

subsection \<open>Starter\<close>

text \<open>
  The argument is an entry of the list, or nothing (\<open>None\<close> for null and undefined).
\<close>

definition isStarting :: "component \<Rightarrow> ProcessRecord option \<Rightarrow> exn + bool" where
  "isStarting c process =
     (case process of
        None \<Rightarrow> Inr False
      | Some p \<Rightarrow>
          (case String (id' p) of
             Inl e \<Rightarrow> Inl e
           | Inr i \<Rightarrow> Inr (i \<in> startingProcessIds c)))"

definition startProcess :: "component \<Rightarrow> ProcessRecord option \<Rightarrow> component outcome" where
  "startProcess c process =
     (case process of
        None \<Rightarrow> Returns c
      | Some p \<Rightarrow>
          if \<not> truthy (id' p) then Returns c
          else (case String (id' p) of
                  Inl e \<Rightarrow> Throws e c
                | Inr i \<Rightarrow>
                    if i \<in> startingProcessIds c then Returns c
                    else Returns (c\<lparr>startingProcessIds := insert i (startingProcessIds c),
                                    inflight := inflight c @ [StartProcess i]\<rparr>)))"

text \<open>
  The \<^verbatim>\<open>next\<close> callback, for the id captured by the closure. The constant
  \<^verbatim>\<open>message\<close> of the source is computed and never used.
\<close>

definition startProcess_next :: "component \<Rightarrow> string \<Rightarrow> jsval \<Rightarrow> component" where
  "startProcess_next c i res =
     (let displayMessage =
            coalesce (opt_get res ''message'')
              (JStr (if truthy (opt_get res ''success'') then ''Proceso iniciado''
                     else ''No se pudo iniciar el proceso''));
          c1 = c\<lparr>snackBar := snackBar c @ [(displayMessage, ''Cerrar'', 4000)]\<rparr>;
          c2 = c1\<lparr>startingProcessIds := startingProcessIds c1 - {i}\<rparr>
      in if truthy (opt_get res ''success'') then loadProcesses c2 else c2)"

text \<open>The \<^verbatim>\<open>error\<close> callback.\<close>

definition startProcess_error :: "component \<Rightarrow> string \<Rightarrow> jsval \<Rightarrow> component" where
  "startProcess_error c i err =
     (let c1 = c\<lparr>console := console c @ [(''Error starting process'', err)]\<rparr>;
          errMsg =
            coalesce
              (coalesce
                 (coalesce (opt_get (opt_get err ''error'') ''message'') (opt_get err ''message''))
                 (opt_get err ''statusText''))
              (JStr ''Error de red'');
          c2 = c1\<lparr>snackBar := snackBar c1 @ [(errMsg, ''Cerrar'', 4000)]\<rparr>
      in c2\<lparr>startingProcessIds := startingProcessIds c2 - {i}\<rparr>)"

subsection \<open>Editor\<close>

text \<open>
  Value semantics: a record of the list and its copy \<^verbatim>\<open>{ ...process }\<close> are the same
  value. What is shared between the copy and the original is the subject of the store
  model further down. \<^verbatim>\<open>(process.parameters || []).map(...)\<close> throws on a truthy value
  that is not an array, after the first two assignments.
\<close>

definition copyParameters :: "jsval \<Rightarrow> exn + jsval list" where
  "copyParameters ps =
     (let a = (if truthy ps then ps else JArr []) in
      if isArray a then Inr (map (\<lambda>p. JObj (spread p)) (elements a)) else Inl TypeError)"

definition selectProcess :: "component \<Rightarrow> ProcessRecord \<Rightarrow> component outcome" where
  "selectProcess c process =
     (let c1 = c\<lparr>selectedProcess := Some process, editedProcess := Some process\<rparr> in
      case copyParameters (parameters process) of
        Inl e \<Rightarrow> Throws e c1
      | Inr ps \<Rightarrow> Returns (c1\<lparr>editedParameters := ps\<rparr>))"

definition cancelEdit :: "component \<Rightarrow> component outcome" where
  "cancelEdit c =
     (case selectedProcess c of
        None \<Rightarrow> Returns c
      | Some sel \<Rightarrow>
          (case copyParameters (parameters sel) of
             Inl e \<Rightarrow> Throws e c
           | Inr ps \<Rightarrow>
               Returns (c\<lparr>editedParameters := ps, editedProcess := None, selectedProcess := None\<rparr>)))"

text \<open>The arrow function that prepares one parameter of the payload.\<close>

definition normalizeParam :: "jsval \<Rightarrow> exn + jsval" where
  "normalizeParam p =
     (let copy = spread p in
      if strict_eq (own copy ''type'') (JStr ''number'') then
        (case Number (own copy ''value'') of
           Inl e \<Rightarrow> Inl e
         | Inr n \<Rightarrow>
             Inr (JObj (set_own copy ''value'' (if isNaN n then own copy ''value'' else JNum n))))
      else Inr (JObj copy))"

text \<open>
  \<^verbatim>\<open>updateSelectedProcess()\<close> up to the request. Reading \<^verbatim>\<open>this.editedProcess.name\<close>
  throws when there is no draft.
\<close>

definition updateSelectedProcess :: "component \<Rightarrow> component outcome" where
  "updateSelectedProcess c =
     (case selectedProcess c of
        None \<Rightarrow> Returns c
      | Some sel \<Rightarrow>
          (case sequence (map normalizeParam (editedParameters c)) of
             Inl e \<Rightarrow> Throws e c
           | Inr paramsToSend \<Rightarrow>
               (case editedProcess c of
                  None \<Rightarrow> Throws TypeError c
                | Some ep \<Rightarrow>
                    let body = \<lparr>body_name = name ep, body_description = description ep,
                                body_parameters = paramsToSend\<rparr>
                    in (case String (id' sel) of
                          Inl e \<Rightarrow> Throws e c
                        | Inr i \<Rightarrow> Returns (c\<lparr>inflight := inflight c @ [PatchProcess i body]\<rparr>)))))"

text \<open>
  The \<^verbatim>\<open>next\<close> callback of the update, for the body captured by the closure (its
  \<^verbatim>\<open>parameters\<close> are \<^verbatim>\<open>paramsToSend\<close>). \<^verbatim>\<open>this.selectedProcess\<close> is read when the
  answer arrives: with no selection left, the predicate of \<^verbatim>\<open>findIndex\<close> throws on the
  first entry of the list.
\<close>

definition merged :: "ProcessRecord \<Rightarrow> PatchBody \<Rightarrow> ProcessRecord" where
  "merged p body =
     p\<lparr>name := body_name body, description := body_description body,
       parameters := JArr (body_parameters body)\<rparr>"

definition closeSession :: "component \<Rightarrow> component" where
  "closeSession c = c\<lparr>selectedProcess := None, editedProcess := None, editedParameters := []\<rparr>"

definition updateSelectedProcess_next :: "component \<Rightarrow> PatchBody \<Rightarrow> component outcome" where
  "updateSelectedProcess_next c body =
     (case selectedProcess c of
        None \<Rightarrow> if processes c = [] then Returns (closeSession c) else Throws TypeError c
      | Some sel \<Rightarrow>
          (case findIndex (\<lambda>p. strict_eq (id' p) (id' sel)) (processes c) of
             None \<Rightarrow> Returns (closeSession c)
           | Some idx \<Rightarrow>
               Returns (closeSession
                 (c\<lparr>processes := (processes c)[idx := merged (processes c ! idx) body]\<rparr>))))"

text \<open>The \<^verbatim>\<open>error\<close> callback of the update.\<close>

definition updateSelectedProcess_error :: "component \<Rightarrow> jsval \<Rightarrow> component" where
  "updateSelectedProcess_error c err =
     c\<lparr>console := console c @ [(''Error updating process'', err)]\<rparr>"

subsection \<open>Runs of the component\<close>

text \<open>
  The states the component can reach from its initial one: the user calls a method,
  edits a draft through the form, or the service answers a request that is in flight,
  which takes it out of \<open>inflight\<close> and runs the callback. A callback that throws
  leaves the state it reached.
\<close>

definition answered :: "request \<Rightarrow> component \<Rightarrow> component" where
  "answered r c = c\<lparr>inflight := remove1 r (inflight c)\<rparr>"

inductive reachable :: "component \<Rightarrow> bool" where
  r_initial: "reachable initial"
| r_ngOnInit: "reachable c \<Longrightarrow> reachable (ngOnInit c)"
| r_toggle: "reachable c \<Longrightarrow> reachable (toggleEjecutable c)"
| r_load_next:
    "reachable c \<Longrightarrow> GetProcesses \<in> set (inflight c) \<Longrightarrow>
     reachable (state_of (loadProcesses_next (answered GetProcesses c) res))"
| r_load_error:
    "reachable c \<Longrightarrow> GetProcesses \<in> set (inflight c) \<Longrightarrow> reachable (answered GetProcesses c)"
| r_start: "reachable c \<Longrightarrow> reachable (state_of (startProcess c p))"
| r_start_next:
    "reachable c \<Longrightarrow> StartProcess i \<in> set (inflight c) \<Longrightarrow>
     reachable (startProcess_next (answered (StartProcess i) c) i res)"
| r_start_error:
    "reachable c \<Longrightarrow> StartProcess i \<in> set (inflight c) \<Longrightarrow>
     reachable (startProcess_error (answered (StartProcess i) c) i err)"
| r_select: "reachable c \<Longrightarrow> reachable (state_of (selectProcess c q))"
| r_cancel: "reachable c \<Longrightarrow> reachable (state_of (cancelEdit c))"
| r_edit:
    "reachable c \<Longrightarrow> reachable (c\<lparr>editedProcess := ep, editedParameters := eps\<rparr>)"
| r_update: "reachable c \<Longrightarrow> reachable (state_of (updateSelectedProcess c))"
| r_update_next:
    "reachable c \<Longrightarrow> PatchProcess i body \<in> set (inflight c) \<Longrightarrow>
     reachable (state_of (updateSelectedProcess_next (answered (PatchProcess i body) c) body))"
| r_update_error:
    "reachable c \<Longrightarrow> PatchProcess i body \<in> set (inflight c) \<Longrightarrow>
     reachable (updateSelectedProcess_error (answered (PatchProcess i body) c) err)"

section \<open>The edit session over an explicit store\<close>

text \<open>
  Which objects \<^verbatim>\<open>selectProcess\<close> and \<^verbatim>\<open>cancelEdit\<close> create and which they share is a
  matter of object identity, so these two methods are also modelled over a store: a
  value is a primitive or a reference, and the store maps an address to the object or
  array that lives there. Allocation appends to the store, so the address of a new
  object is the length of the store before.
\<close>

datatype sval = SUndefined | SNull | SBool bool | SNum jsnum | SStr string | SRef nat

datatype cell = Object "(string \<times> sval) list" | Array "sval list"

text \<open>The fields of the component that the editor uses, and the store.\<close>

record session =
  store :: "cell list"
  processes_s :: sval
  selectedProcess_s :: sval
  editedProcess_s :: sval
  editedParameters_s :: sval

fun truthy_s :: "sval \<Rightarrow> bool" where
  "truthy_s SUndefined = False"
| "truthy_s SNull = False"
| "truthy_s (SBool b) = b"
| "truthy_s (SNum n) = truthy (JNum n)"
| "truthy_s (SStr s) = (s \<noteq> '''')"
| "truthy_s (SRef a) = True"

fun nullish_s :: "sval \<Rightarrow> bool" where
  "nullish_s SUndefined = True"
| "nullish_s SNull = True"
| "nullish_s v = False"

definition cell_at :: "cell list \<Rightarrow> nat \<Rightarrow> cell option" where
  "cell_at h a = (if a < length h then Some (h ! a) else None)"

definition own_s :: "(string \<times> sval) list \<Rightarrow> string \<Rightarrow> sval" where
  "own_s kvs k = (case map_of kvs k of Some v \<Rightarrow> v | None \<Rightarrow> SUndefined)"

text \<open>
  \<^verbatim>\<open>v.k\<close> for a named property \<open>k\<close> and a value that is neither null nor undefined:
  the own property of an object, \<^verbatim>\<open>undefined\<close> on arrays and primitives.
\<close>

definition getProp_s :: "cell list \<Rightarrow> sval \<Rightarrow> string \<Rightarrow> sval" where
  "getProp_s h v k =
     (case v of
        SRef a \<Rightarrow> (case cell_at h a of Some (Object kvs) \<Rightarrow> own_s kvs k | _ \<Rightarrow> SUndefined)
      | _ \<Rightarrow> SUndefined)"

text \<open>\<^verbatim>\<open>v[i]\<close> on an array; \<^verbatim>\<open>undefined\<close> out of range.\<close>

definition getIndex_s :: "cell list \<Rightarrow> sval \<Rightarrow> nat \<Rightarrow> sval" where
  "getIndex_s h v i =
     (case v of
        SRef a \<Rightarrow>
          (case cell_at h a of
             Some (Array xs) \<Rightarrow> if i < length xs then xs ! i else SUndefined
           | _ \<Rightarrow> SUndefined)
      | _ \<Rightarrow> SUndefined)"

text \<open>\<^verbatim>\<open>{ ...v }\<close>: the own properties of \<open>v\<close>, with the values as they are (a shallow copy).\<close>

definition spread_s :: "cell list \<Rightarrow> sval \<Rightarrow> (string \<times> sval) list" where
  "spread_s h v =
     (case v of
        SRef a \<Rightarrow>
          (case cell_at h a of
             Some (Object kvs) \<Rightarrow> kvs
           | Some (Array xs) \<Rightarrow> zip (map showNat [0..<length xs]) xs
           | None \<Rightarrow> [])
      | SStr s \<Rightarrow> zip (map showNat [0..<length s]) (map (\<lambda>c. SStr [c]) s)
      | _ \<Rightarrow> [])"

text \<open>
  \<^verbatim>\<open>xs.map(p => ({ ...p }))\<close>: one new object per element, in order; the result lists
  their addresses.
\<close>

fun copyEach :: "cell list \<Rightarrow> sval list \<Rightarrow> cell list \<times> sval list" where
  "copyEach h [] = (h, [])"
| "copyEach h (x # xs) =
     (let (h', rs) = copyEach (h @ [Object (spread_s h x)]) xs
      in (h', SRef (length h) # rs))"

text \<open>
  \<^verbatim>\<open>(ps || []).map(p => ({ ...p }))\<close>: the literal \<^verbatim>\<open>[]\<close> is a new array; \<^verbatim>\<open>map\<close>
  exists on arrays only; its result is a new array.
\<close>

definition copyParameters_s :: "cell list \<Rightarrow> sval \<Rightarrow> exn + cell list \<times> sval" where
  "copyParameters_s h ps =
     (let h1 = (if truthy_s ps then h else h @ [Array []]);
          a = (if truthy_s ps then ps else SRef (length h))
      in case a of
           SRef b \<Rightarrow>
             (case cell_at h1 b of
                Some (Array xs) \<Rightarrow>
                  (let (h2, rs) = copyEach h1 xs in Inr (h2 @ [Array rs], SRef (length h2)))
              | _ \<Rightarrow> Inl TypeError)
         | _ \<Rightarrow> Inl TypeError)"

definition selectProcess_s :: "session \<Rightarrow> sval \<Rightarrow> session outcome" where
  "selectProcess_s s process =
     (let h = store s;
          s1 = s\<lparr>selectedProcess_s := process,
                 store := h @ [Object (spread_s h process)],
                 editedProcess_s := SRef (length h)\<rparr>
      in if nullish_s process then Throws TypeError s1
         else (case copyParameters_s (store s1) (getProp_s (store s1) process ''parameters'') of
                 Inl e \<Rightarrow> Throws e s1
               | Inr (h2, r) \<Rightarrow> Returns (s1\<lparr>store := h2, editedParameters_s := r\<rparr>)))"

definition cancelEdit_s :: "session \<Rightarrow> session outcome" where
  "cancelEdit_s s =
     (if \<not> truthy_s (selectedProcess_s s) then Returns s
      else (case copyParameters_s (store s)
                   (getProp_s (store s) (selectedProcess_s s) ''parameters'') of
              Inl e \<Rightarrow> Throws e s
            | Inr (h2, r) \<Rightarrow>
                Returns (s\<lparr>store := h2, editedParameters_s := r,
                           editedProcess_s := SNull, selectedProcess_s := SNull\<rparr>)))"

subsection \<open>Writes\<close>

fun set_own_s :: "(string \<times> sval) list \<Rightarrow> string \<Rightarrow> sval \<Rightarrow> (string \<times> sval) list" where
  "set_own_s [] k v = [(k, v)]"
| "set_own_s ((k', v') # kvs) k v =
     (if k' = k then (k, v) # kvs else (k', v') # set_own_s kvs k v)"

text \<open>
  \<^verbatim>\<open>o.k = v\<close> for a named property: a TypeError on null, undefined and (the module is
  strict code) on primitives. The store keeps only the elements of an array, so a named
  property given to an array leaves the store as it is.
\<close>

definition assignProp :: "cell list \<Rightarrow> sval \<Rightarrow> string \<Rightarrow> sval \<Rightarrow> exn + cell list" where
  "assignProp h ob k v =
     (case ob of
        SRef a \<Rightarrow>
          (case cell_at h a of
             Some (Object kvs) \<Rightarrow> Inr (h[a := Object (set_own_s kvs k v)])
           | _ \<Rightarrow> Inr h)
      | _ \<Rightarrow> Inl TypeError)"

text \<open>
  What the form does to the drafts: \<^verbatim>\<open>this.editedProcess.k = v\<close> and
  \<^verbatim>\<open>this.editedParameters[j].k = v\<close>.
\<close>

datatype draft_write = DraftField string sval | DraftParam nat string sval

fun write_draft :: "session \<Rightarrow> draft_write \<Rightarrow> session outcome" where
  "write_draft s (DraftField k v) =
     (case assignProp (store s) (editedProcess_s s) k v of
        Inl e \<Rightarrow> Throws e s
      | Inr h \<Rightarrow> Returns (s\<lparr>store := h\<rparr>))"
| "write_draft s (DraftParam j k v) =
     (if nullish_s (editedParameters_s s) then Throws TypeError s
      else (case assignProp (store s) (getIndex_s (store s) (editedParameters_s s) j) k v of
              Inl e \<Rightarrow> Throws e s
            | Inr h \<Rightarrow> Returns (s\<lparr>store := h\<rparr>)))"

text \<open>A series of writes of the form, each one on the state the previous one left.\<close>

fun write_drafts :: "session \<Rightarrow> draft_write list \<Rightarrow> session" where
  "write_drafts s [] = s"
| "write_drafts s (w # ws) = write_drafts (state_of (write_draft s w)) ws"

section \<open>Time formatter\<close>

text \<open>
  \<^verbatim>\<open>formatTimeAgo(isoDate: string | null): string\<close>. The clock (\<^verbatim>\<open>Date.now()\<close>, in
  milliseconds) and the date parser (\<^verbatim>\<open>new Date(s).getTime()\<close>, \<open>None\<close> for an
  invalid date, whose time is NaN) are parameters. \<^verbatim>\<open>Math.floor(x / k)\<close> on integers is
  \<open>div\<close>, which rounds down. Every comparison with NaN is false, so an invalid date
  falls through to the last line.
\<close>

definition formatTimeAgo :: "(string \<Rightarrow> int option) \<Rightarrow> int \<Rightarrow> string option \<Rightarrow> string" where
  "formatTimeAgo parseDate now isoDate =
     (case isoDate of
        None \<Rightarrow> ''''
      | Some s \<Rightarrow>
          if s = '''' then ''''
          else (case parseDate s of
                  None \<Rightarrow> ''Hace '' @ numToString NaN @ '' d''
                | Some then' \<Rightarrow>
                    let diff = (now - then') div 1000 in
                    if diff < 60 then ''Hace '' @ numToString (Dec diff 0) @ '' seg''
                    else let mins = diff div 60 in
                    if mins < 60 then ''Hace '' @ numToString (Dec mins 0) @ '' min''
                    else let hours = mins div 60 in
                    if hours < 24 then ''Hace '' @ numToString (Dec hours 0) @ '' h''
                    else let days = hours div 24 in
                    ''Hace '' @ numToString (Dec days 0) @ '' d''))"

section \<open>Notions used to state the properties\<close>

text \<open>An integer in decimal digits, with a minus sign when negative.\<close>

definition showInt :: "int \<Rightarrow> string" where
  "showInt d = (if d < 0 then ''-'' @ showNat (nat (- d)) else showNat (nat d))"

text \<open>The ids of the start requests that are in flight, in the order they were sent.\<close>

fun startId :: "request \<Rightarrow> string list" where
  "startId (StartProcess i) = [i]"
| "startId r = []"

definition pendingStarts :: "component \<Rightarrow> string list" where
  "pendingStarts c = concat (map startId (inflight c))"

text \<open>Two entries of a list, the first executable, and a state showing them.\<close>

definition exampleA :: ProcessRecord where
  "exampleA =
     \<lparr>id' = JStr ''p-1'', name = JStr ''Alta de cliente'', workflowName = JStr ''alta'',
      description = JStr ''Da de alta un cliente'',
      parameters = JArr [JObj [(''name'', JStr ''edad''), (''type'', JStr ''number''), (''value'', JStr ''42'')]],
      active = ''Proceso Activo'', status = JStr ''success'', startedAt = JNull,
      canExecute = True\<rparr>"

definition exampleB :: ProcessRecord where
  "exampleB =
     \<lparr>id' = JStr ''p-2'', name = JStr ''Informe'', workflowName = JStr '''',
      description = JNull, parameters = JArr [],
      active = ''Proceso Inactivo'', status = JStr '''', startedAt = JNull,
      canExecute = False\<rparr>"

definition exampleState :: component where
  "exampleState = initial\<lparr>processes := [exampleB, exampleA]\<rparr>"

text \<open>
  Every start request in flight is for a different id, and the ids in flight are the
  in-flight start set.
\<close>

definition starts_tracked :: "component \<Rightarrow> bool" where
  "starts_tracked c = (distinct (pendingStarts c) \<and> set (pendingStarts c) = startingProcessIds c)"

text \<open>The state after \<^verbatim>\<open>startProcess(exampleA)\<close> in the initial state.\<close>

definition exampleStarted :: component where
  "exampleStarted = initial\<lparr>startingProcessIds := {''p-1''}, inflight := [StartProcess ''p-1'']\<rparr>"

text \<open>Answers of the start request: a success, a failure without message, a transport error.\<close>

definition okResponse :: jsval where
  "okResponse = JObj [(''success'', JBool True), (''message'', JStr ''ok'')]"

definition failedResponse :: jsval where
  "failedResponse = JObj [(''success'', JBool False)]"

definition notFoundError :: jsval where
  "notFoundError =
     JObj [(''error'', JObj [(''message'', JStr ''Proceso no encontrado'')]),
           (''message'', JStr ''Http failure response''),
           (''statusText'', JStr ''Not Found'')]"










text \<open>
  \<open>preserves h h'\<close>: every object of the store \<open>h\<close> is in \<open>h'\<close>, at its address and with
  its contents. \<open>fresh n v\<close>: a reference to an object allocated at or after address \<open>n\<close>.
  \<open>drafts_new n s\<close>: the draft of the metadata is such an object, and the draft of the
  parameters is such an array, of such objects. \<open>in_store h v\<close>: not a reference
  outside \<open>h\<close>.
\<close>

definition preserves :: "cell list \<Rightarrow> cell list \<Rightarrow> bool" where
  "preserves h h' = (length h \<le> length h' \<and> take (length h) h' = h)"

fun fresh :: "nat \<Rightarrow> sval \<Rightarrow> bool" where
  "fresh n (SRef a) = (n \<le> a)"
| "fresh n v = False"

fun in_store :: "cell list \<Rightarrow> sval \<Rightarrow> bool" where
  "in_store h (SRef a) = (a < length h)"
| "in_store h v = True"

definition drafts_new :: "nat \<Rightarrow> session \<Rightarrow> bool" where
  "drafts_new n s =
     (fresh n (editedProcess_s s) \<and>
      (case editedParameters_s s of
         SRef b \<Rightarrow>
           n \<le> b \<and> (case cell_at (store s) b of Some (Array rs) \<Rightarrow> list_all (fresh n) rs | _ \<Rightarrow> False)
       | _ \<Rightarrow> False))"

text \<open>
  A store with the list (address 0), one entry (1), its parameters (2, 3) and the empty
  drafts array the component starts with (4); the session on it; the state after
  \<^verbatim>\<open>selectProcess\<close> of the entry; and the write
  \<^verbatim>\<open>this.editedProcess.parameters[0].value = '0'\<close>.
\<close>

definition exampleStore :: "cell list" where
  "exampleStore =
     [Array [SRef 1],
      Object [(''id'', SStr ''p-1''), (''name'', SStr ''Alta de cliente''),
              (''parameters'', SRef 2), (''canExecute'', SBool True)],
      Array [SRef 3],
      Object [(''name'', SStr ''edad''), (''type'', SStr ''number''), (''value'', SStr ''42'')],
      Array []]"

definition exampleSession :: session where
  "exampleSession =
     \<lparr>store = exampleStore, processes_s = SRef 0, selectedProcess_s = SNull,
      editedProcess_s = SNull, editedParameters_s = SRef 4\<rparr>"

definition exampleSelected :: session where
  "exampleSelected =
     \<lparr>store = exampleStore @
        [Object [(''id'', SStr ''p-1''), (''name'', SStr ''Alta de cliente''),
                 (''parameters'', SRef 2), (''canExecute'', SBool True)],
         Object [(''name'', SStr ''edad''), (''type'', SStr ''number''), (''value'', SStr ''42'')],
         Array [SRef 6]],
      processes_s = SRef 0, selectedProcess_s = SRef 1,
      editedProcess_s = SRef 5, editedParameters_s = SRef 7\<rparr>"

definition writeThroughDraft :: "session \<Rightarrow> exn + cell list" where
  "writeThroughDraft s =
     assignProp (store s)
       (getIndex_s (store s) (getProp_s (store s) (editedProcess_s s) ''parameters'') 0)
       ''value'' (SStr ''0'')"

text \<open>The store after that write on \<open>exampleSelected\<close>.\<close>

definition exampleMutated :: "cell list" where
  "exampleMutated = (store exampleSelected)
     [3 := Object [(''name'', SStr ''edad''), (''type'', SStr ''number''), (''value'', SStr ''0'')]]"

section \<open>Loader: properties\<close>




lemma truthy_JArr_cases: "\<not> truthy v \<Longrightarrow> \<not> isArray v"
  by (cases v) (simp_all add: isArray_def)














section \<open>Filter: properties\<close>

text \<open>
  C3. displayedProcesses is a derived view computed from the list and the toggle alone:
  with the toggle off it is the list itself, with the toggle on it is the list filtered
  by canExecute, that is exactly the entries whose canExecute is true, in the order of
  the list.
\<close>

theorem displayedProcesses_view:
  "(\<not> showOnlyExecutable c \<longrightarrow> displayedProcesses c = processes c)
   \<and> (showOnlyExecutable c \<longrightarrow> displayedProcesses c = filter canExecute (processes c))
   \<and> (showOnlyExecutable c \<longrightarrow> set (displayedProcesses c) = {p \<in> set (processes c). canExecute p})
   \<and> subseq (displayedProcesses c) (processes c)
   \<and> (processes c' = processes c \<longrightarrow> showOnlyExecutable c' = showOnlyExecutable c \<longrightarrow>
        displayedProcesses c' = displayedProcesses c)"
  by (simp add: displayedProcesses_def)

theorem displayedProcesses_view_witness:
  "displayedProcesses exampleState = [exampleB, exampleA]
   \<and> displayedProcesses (toggleEjecutable exampleState) = [exampleA]
   \<and> showOnlyExecutable (toggleEjecutable exampleState)
   \<and> \<not> showOnlyExecutable exampleState"
  using displayedProcesses_view [of exampleState exampleState]
    displayedProcesses_view [of "toggleEjecutable exampleState" exampleState]
  by (simp add: exampleState_def initial_def toggleEjecutable_def exampleA_def exampleB_def)

section \<open>Starter: properties\<close>

subsection \<open>Start requests in flight\<close>


lemma startId_remove1:
  "concat (map startId (remove1 r rs)) =
     (case r of StartProcess i \<Rightarrow> remove1 i (concat (map startId rs)) | _ \<Rightarrow> concat (map startId rs))"
proof (induction rs)
  case Nil
  then show ?case by (cases r) simp_all
next
  case (Cons x rs)
  show ?case
  proof (cases r)
    case GetProcesses
    with Cons show ?thesis by (cases x) auto
  next
    case (StartProcess i)
    with Cons show ?thesis by (cases x) auto
  next
    case (PatchProcess i b)
    with Cons show ?thesis by (cases x) auto
  qed
qed

lemma pendingStarts_answered_start:
  "pendingStarts (answered (StartProcess i) c) = remove1 i (pendingStarts c)"
  by (simp add: pendingStarts_def answered_def startId_remove1)

lemma pendingStarts_answered_get:
  "pendingStarts (answered GetProcesses c) = pendingStarts c"
  by (simp add: pendingStarts_def answered_def startId_remove1)

lemma pendingStarts_answered_patch:
  "pendingStarts (answered (PatchProcess i b) c) = pendingStarts c"
  by (simp add: pendingStarts_def answered_def startId_remove1)

lemma startingProcessIds_answered [simp]:
  "startingProcessIds (answered r c) = startingProcessIds c"
  by (simp add: answered_def)

lemma tracked_same:
  "pendingStarts c' = pendingStarts c \<Longrightarrow> startingProcessIds c' = startingProcessIds c \<Longrightarrow>
   starts_tracked c \<Longrightarrow> starts_tracked c'"
  by (simp add: starts_tracked_def)

lemma tracked_loadProcesses: "starts_tracked c \<Longrightarrow> starts_tracked (loadProcesses c)"
  by (simp add: starts_tracked_def pendingStarts_def loadProcesses_def)

lemma tracked_removed:
  "starts_tracked c \<Longrightarrow>
   pendingStarts c' = remove1 i (pendingStarts c) \<Longrightarrow>
   startingProcessIds c' = startingProcessIds c - {i} \<Longrightarrow> starts_tracked c'"
  by (simp add: starts_tracked_def)

lemma tracked_startProcess: "starts_tracked c \<Longrightarrow> starts_tracked (state_of (startProcess c p))"
  by (auto simp: starts_tracked_def pendingStarts_def startProcess_def
      split: option.splits sum.splits)

lemma startProcess_next_pending:
  "pendingStarts (startProcess_next c i res) = pendingStarts c"
  by (simp add: startProcess_next_def Let_def loadProcesses_def pendingStarts_def)

lemma startProcess_next_ids:
  "startingProcessIds (startProcess_next c i res) = startingProcessIds c - {i}"
  by (simp add: startProcess_next_def Let_def loadProcesses_def)

lemma tracked_start_next:
  assumes "starts_tracked c"
  shows "starts_tracked (startProcess_next (answered (StartProcess i) c) i res)"
  using assms by (rule tracked_removed [of c _ i])
     (simp_all add: startProcess_next_pending startProcess_next_ids pendingStarts_answered_start)

lemma tracked_start_error:
  assumes "starts_tracked c"
  shows "starts_tracked (startProcess_error (answered (StartProcess i) c) i err)"
  using assms by (rule tracked_removed [of c _ i])
     (simp_all add: startProcess_error_def Let_def pendingStarts_def answered_def startId_remove1)

lemma tracked_frame:
  "inflight c' = inflight c \<Longrightarrow> startingProcessIds c' = startingProcessIds c \<Longrightarrow>
   starts_tracked c \<Longrightarrow> starts_tracked c'"
  by (simp add: starts_tracked_def pendingStarts_def)

lemma tracked_answered_get: "starts_tracked c \<Longrightarrow> starts_tracked (answered GetProcesses c)"
  by (simp add: starts_tracked_def pendingStarts_answered_get)

lemma tracked_answered_patch:
  "starts_tracked c \<Longrightarrow> starts_tracked (answered (PatchProcess i body) c)"
  by (simp add: starts_tracked_def pendingStarts_answered_patch)

lemma loadProcesses_next_frame:
  "inflight (state_of (loadProcesses_next c res)) = inflight c
   \<and> startingProcessIds (state_of (loadProcesses_next c res)) = startingProcessIds c"
  by (simp add: loadProcesses_next_def split: sum.splits)

lemma selectProcess_frame:
  "inflight (state_of (selectProcess c q)) = inflight c
   \<and> startingProcessIds (state_of (selectProcess c q)) = startingProcessIds c"
  by (simp add: selectProcess_def Let_def split: sum.splits)

lemma cancelEdit_frame:
  "inflight (state_of (cancelEdit c)) = inflight c
   \<and> startingProcessIds (state_of (cancelEdit c)) = startingProcessIds c"
  by (simp add: cancelEdit_def split: sum.splits option.splits)

lemma updateSelectedProcess_frame:
  "pendingStarts (state_of (updateSelectedProcess c)) = pendingStarts c
   \<and> startingProcessIds (state_of (updateSelectedProcess c)) = startingProcessIds c"
  by (simp add: updateSelectedProcess_def Let_def pendingStarts_def split: sum.splits option.splits)

lemma updateSelectedProcess_next_frame:
  "inflight (state_of (updateSelectedProcess_next c body)) = inflight c
   \<and> startingProcessIds (state_of (updateSelectedProcess_next c body)) = startingProcessIds c"
  by (simp add: updateSelectedProcess_next_def closeSession_def split: option.splits)

lemma tracked_load_next:
  assumes "starts_tracked c"
  shows "starts_tracked (state_of (loadProcesses_next (answered GetProcesses c) res))"
proof (rule tracked_frame [of _ "answered GetProcesses c"])
  show "starts_tracked (answered GetProcesses c)"
    using assms by (rule tracked_answered_get)
qed (simp_all add: loadProcesses_next_frame)

lemma tracked_select:
  assumes "starts_tracked c"
  shows "starts_tracked (state_of (selectProcess c q))"
  using assms by (rule tracked_frame [of _ c, rotated 2])
    (simp_all add: selectProcess_frame)

lemma tracked_cancel:
  assumes "starts_tracked c"
  shows "starts_tracked (state_of (cancelEdit c))"
  using assms by (rule tracked_frame [of _ c, rotated 2])
    (simp_all add: cancelEdit_frame)

lemma tracked_update:
  assumes "starts_tracked c"
  shows "starts_tracked (state_of (updateSelectedProcess c))"
  using assms by (rule tracked_same [of _ c, rotated 2])
    (simp_all add: updateSelectedProcess_frame)

lemma tracked_update_next:
  assumes "starts_tracked c"
  shows "starts_tracked (state_of (updateSelectedProcess_next (answered (PatchProcess i body) c) body))"
proof (rule tracked_frame [of _ "answered (PatchProcess i body) c"])
  show "starts_tracked (answered (PatchProcess i body) c)"
    using assms by (rule tracked_answered_patch)
qed (simp_all add: updateSelectedProcess_next_frame)

lemma tracked_update_error:
  assumes "starts_tracked c"
  shows "starts_tracked (updateSelectedProcess_error (answered (PatchProcess i body) c) err)"
proof (rule tracked_frame [of _ "answered (PatchProcess i body) c"])
  show "starts_tracked (answered (PatchProcess i body) c)"
    using assms by (rule tracked_answered_patch)
qed (simp_all add: updateSelectedProcess_error_def)

lemma reachable_tracked: "reachable c \<Longrightarrow> starts_tracked c"
proof (induction rule: reachable.induct)
  case r_initial
  show ?case by (simp add: starts_tracked_def pendingStarts_def initial_def)
next
  case (r_ngOnInit c)
  then show ?case by (simp add: ngOnInit_def tracked_loadProcesses)
next
  case (r_toggle c)
  then show ?case by (simp add: starts_tracked_def pendingStarts_def toggleEjecutable_def)
next
  case (r_load_next c res)
  then show ?case by (simp add: tracked_load_next)
next
  case (r_load_error c)
  then show ?case by (simp add: starts_tracked_def pendingStarts_answered_get)
next
  case (r_start c p)
  then show ?case by (simp add: tracked_startProcess)
next
  case (r_start_next c i res)
  then show ?case by (simp add: tracked_start_next)
next
  case (r_start_error c i err)
  then show ?case by (simp add: tracked_start_error)
next
  case (r_select c q)
  then show ?case by (simp add: tracked_select)
next
  case (r_cancel c)
  then show ?case by (simp add: tracked_cancel)
next
  case (r_edit c ep eps)
  then show ?case by (simp add: starts_tracked_def pendingStarts_def)
next
  case (r_update c)
  then show ?case by (simp add: tracked_update)
next
  case (r_update_next c i body)
  then show ?case by (simp add: tracked_update_next)
next
  case (r_update_error c i body err)
  then show ?case by (simp add: tracked_update_error)
qed

lemma nullish_not_truthy: "nullish v \<Longrightarrow> \<not> truthy v"
  by (cases v) simp_all

lemma exampleStarted_reachable: "reachable exampleStarted"
proof -
  have "state_of (startProcess initial (Some exampleA)) = exampleStarted"
    by (simp add: startProcess_def exampleA_def String_def initial_def exampleStarted_def)
  with r_start [OF r_initial, of "Some exampleA"] show ?thesis by simp
qed

text \<open>
  C2. startProcess(p) is a no-op when p is absent, when p.id is absent, and when the
  id (as a string) is already in the in-flight start set: it returns the state it was
  given, so no request is sent, no notification is shown, and the in-flight set, the
  list and every other field are unchanged. Otherwise it adds the id to the set and
  sends one start request. Hence in every state the component can reach, the start
  requests in flight are for pairwise different ids, which are exactly the members of
  the in-flight set: at most one start request per id is outstanding.
\<close>

theorem startProcess_in_flight_noop:
  "startProcess c None = Returns c
   \<and> (nullish (id' p) \<longrightarrow> startProcess c (Some p) = Returns c)
   \<and> (String (id' p) = Inr i \<longrightarrow> i \<in> startingProcessIds c \<longrightarrow> startProcess c (Some p) = Returns c)
   \<and> (truthy (id' p) \<longrightarrow> String (id' p) = Inr i \<longrightarrow> i \<notin> startingProcessIds c \<longrightarrow>
        startProcess c (Some p) =
          Returns (c\<lparr>startingProcessIds := insert i (startingProcessIds c),
                      inflight := inflight c @ [StartProcess i]\<rparr>))
   \<and> (reachable c \<longrightarrow> distinct (pendingStarts c) \<and> set (pendingStarts c) = startingProcessIds c)"
proof (intro conjI impI)
  show "startProcess c None = Returns c"
    by (simp add: startProcess_def)
  show "startProcess c (Some p) = Returns c" if "nullish (id' p)"
    using nullish_not_truthy [OF that] by (simp add: startProcess_def)
  show "startProcess c (Some p) = Returns c"
    if "String (id' p) = Inr i" and "i \<in> startingProcessIds c"
    using that by (simp add: startProcess_def)
  show "startProcess c (Some p) =
          Returns (c\<lparr>startingProcessIds := insert i (startingProcessIds c),
                      inflight := inflight c @ [StartProcess i]\<rparr>)"
    if "truthy (id' p)" and "String (id' p) = Inr i" and "i \<notin> startingProcessIds c"
    using that by (simp add: startProcess_def)
  show "distinct (pendingStarts c)" if "reachable c"
    using reachable_tracked [OF that] by (simp add: starts_tracked_def)
  show "set (pendingStarts c) = startingProcessIds c" if "reachable c"
    using reachable_tracked [OF that] by (simp add: starts_tracked_def)
qed

theorem startProcess_in_flight_noop_witness:
  "startProcess exampleStarted (Some exampleA) = Returns exampleStarted
   \<and> String (id' exampleA) = Inr ''p-1''
   \<and> ''p-1'' \<in> startingProcessIds exampleStarted
   \<and> reachable exampleStarted
   \<and> pendingStarts exampleStarted = [''p-1'']"
proof -
  have s: "String (id' exampleA) = Inr ''p-1''"
    by (simp add: exampleA_def String_def)
  have m: "''p-1'' \<in> startingProcessIds exampleStarted"
    by (simp add: exampleStarted_def)
  have p: "pendingStarts exampleStarted = [''p-1'']"
    by (simp add: exampleStarted_def pendingStarts_def)
  show ?thesis
    using startProcess_in_flight_noop [of exampleStarted exampleA "''p-1''"] s m p
      exampleStarted_reachable
    by simp
qed

subsection \<open>The answer of a start request\<close>

text \<open>
  C4. When the start request is answered with res, the id is removed from the
  in-flight set whatever res.success is; exactly one notification is added, carrying
  res.message, or a generic string when res.message is null or undefined; and
  loadProcesses() runs (a list request is sent) if and only if res.success is truthy.
  Nothing else changes. For the answer {success: true, message: "ok"} the notification
  shows "ok" and the list is requested again.
\<close>

theorem startProcess_next_response:
  "startProcess_next c i res =
     (let shown = (if nullish (opt_get res ''message'')
                   then JStr (if truthy (opt_get res ''success'') then ''Proceso iniciado''
                              else ''No se pudo iniciar el proceso'')
                   else opt_get res ''message'');
          c' = c\<lparr>snackBar := snackBar c @ [(shown, ''Cerrar'', 4000)],
                  startingProcessIds := startingProcessIds c - {i}\<rparr>
      in if truthy (opt_get res ''success'') then loadProcesses c' else c')
   \<and> startingProcessIds (startProcess_next c i res) = startingProcessIds c - {i}
   \<and> length (snackBar (startProcess_next c i res)) = Suc (length (snackBar c))
   \<and> processes (startProcess_next c i res) = processes c
   \<and> inflight (startProcess_next c i res) =
        (if truthy (opt_get res ''success'') then inflight c @ [GetProcesses] else inflight c)
   \<and> startProcess_next c i (JObj [(''success'', JBool True), (''message'', JStr ''ok'')]) =
        c\<lparr>snackBar := snackBar c @ [(JStr ''ok'', ''Cerrar'', 4000)],
          startingProcessIds := startingProcessIds c - {i},
          inflight := inflight c @ [GetProcesses]\<rparr>"
  by (simp add: startProcess_next_def Let_def coalesce_def loadProcesses_def opt_get_def own_def)

theorem startProcess_next_response_witness:
  "startProcess_next (answered (StartProcess ''p-1'') exampleStarted) ''p-1'' okResponse =
     initial\<lparr>snackBar := [(JStr ''ok'', ''Cerrar'', 4000)], inflight := [GetProcesses]\<rparr>
   \<and> startProcess_next (answered (StartProcess ''p-1'') exampleStarted) ''p-1'' failedResponse =
     initial\<lparr>snackBar := [(JStr ''No se pudo iniciar el proceso'', ''Cerrar'', 4000)]\<rparr>"
  using startProcess_next_response
      [of "answered (StartProcess ''p-1'') exampleStarted" "''p-1''" okResponse]
    startProcess_next_response
      [of "answered (StartProcess ''p-1'') exampleStarted" "''p-1''" failedResponse]
  by (simp add: okResponse_def failedResponse_def exampleStarted_def answered_def initial_def
      opt_get_def own_def loadProcesses_def)

subsection \<open>The failure of a start request\<close>

text \<open>
  C5. When the start request fails with err, the error is logged and one notification
  is shown whose message is err.error.message when present, else err.message, else
  err.statusText, else "Error de red"; the list is unchanged and no request is sent;
  the id is removed from the in-flight set, so that startProcess for the same id sends
  a request again.
\<close>

theorem startProcess_error_effects:
  "startProcess_error c i err =
     (let errMsg =
            (if \<not> nullish (opt_get (opt_get err ''error'') ''message'')
               then opt_get (opt_get err ''error'') ''message''
             else if \<not> nullish (opt_get err ''message'') then opt_get err ''message''
             else if \<not> nullish (opt_get err ''statusText'') then opt_get err ''statusText''
             else JStr ''Error de red'')
      in c\<lparr>console := console c @ [(''Error starting process'', err)],
            snackBar := snackBar c @ [(errMsg, ''Cerrar'', 4000)],
            startingProcessIds := startingProcessIds c - {i}\<rparr>)
   \<and> processes (startProcess_error c i err) = processes c
   \<and> inflight (startProcess_error c i err) = inflight c
   \<and> i \<notin> startingProcessIds (startProcess_error c i err)
   \<and> (truthy (id' p) \<longrightarrow> String (id' p) = Inr i \<longrightarrow>
        inflight (state_of (startProcess (startProcess_error c i err) (Some p))) =
          inflight c @ [StartProcess i])"
  by (simp add: startProcess_error_def Let_def coalesce_def startProcess_def)

theorem startProcess_error_effects_witness:
  "snackBar (startProcess_error (answered (StartProcess ''p-1'') exampleStarted) ''p-1'' notFoundError) =
     [(JStr ''Proceso no encontrado'', ''Cerrar'', 4000)]
   \<and> snackBar (startProcess_error (answered (StartProcess ''p-1'') exampleStarted) ''p-1'' JNull) =
     [(JStr ''Error de red'', ''Cerrar'', 4000)]
   \<and> startingProcessIds (startProcess_error (answered (StartProcess ''p-1'') exampleStarted) ''p-1'' notFoundError) = {}
   \<and> inflight (state_of (startProcess
        (startProcess_error (answered (StartProcess ''p-1'') exampleStarted) ''p-1'' notFoundError)
        (Some exampleA))) = [StartProcess ''p-1'']
   \<and> truthy (id' exampleA) \<and> String (id' exampleA) = Inr ''p-1''"
proof -
  have t: "truthy (id' exampleA)" and s: "String (id' exampleA) = Inr ''p-1''"
    by (simp_all add: exampleA_def String_def)
  show ?thesis
    using t s
      startProcess_error_effects
        [of "answered (StartProcess ''p-1'') exampleStarted" "''p-1''" notFoundError exampleA]
      startProcess_error_effects
        [of "answered (StartProcess ''p-1'') exampleStarted" "''p-1''" JNull exampleA]
    by (simp add: notFoundError_def exampleStarted_def answered_def initial_def
        opt_get_def own_def startProcess_def)
qed

section \<open>Editor: properties\<close>

subsection \<open>Normalising the parameters\<close>












lemma Number_primitive: "is_primitive v \<Longrightarrow> \<exists>n. Number v = Inr n"
  by (cases v) simp_all

subsection \<open>Opening and cancelling an edit session\<close>

lemma preserves_refl: "preserves h h"
  by (simp add: preserves_def)

lemma preserves_trans: "preserves h h' \<Longrightarrow> preserves h' h'' \<Longrightarrow> preserves h h''"
proof -
  assume a: "preserves h h'" and b: "preserves h' h''"
  then have l: "length h \<le> length h'" "length h' \<le> length h''"
    by (simp_all add: preserves_def)
  have "take (length h) h'' = take (length h) (take (length h') h'')"
    using l by (simp add: min_def)
  also have "\<dots> = take (length h) h'" using b by (simp add: preserves_def)
  also have "\<dots> = h" using a by (simp add: preserves_def)
  finally show ?thesis using l by (simp add: preserves_def)
qed

lemma preserves_append: "preserves h (h @ e)"
  by (simp add: preserves_def)

lemma preserves_cell: "preserves h h' \<Longrightarrow> a < length h \<Longrightarrow> cell_at h' a = cell_at h a"
proof -
  assume p: "preserves h h'" and a: "a < length h"
  then have "h' ! a = take (length h) h' ! a" by simp
  with p a show ?thesis by (simp add: preserves_def cell_at_def)
qed

lemma copyEach_shape:
  "copyEach h xs = (h', rs) \<Longrightarrow>
   preserves h h' \<and> length h' = length h + length xs
   \<and> rs = map SRef [length h..<length h + length xs]"
proof (induction xs arbitrary: h h' rs)
  case Nil
  then show ?case by (simp add: preserves_refl)
next
  case (Cons x xs)
  let ?h1 = "h @ [Object (spread_s h x)]"
  from Cons.prems obtain rs' where c: "copyEach ?h1 xs = (h', rs')"
    and rs: "rs = SRef (length h) # rs'"
    by (auto simp: Let_def split: prod.splits)
  from Cons.IH [OF c] have p: "preserves ?h1 h'" and l: "length h' = length ?h1 + length xs"
    and r: "rs' = map SRef [length ?h1..<length ?h1 + length xs]" by simp_all
  have "preserves h h'"
    using preserves_trans [OF preserves_append p] .
  moreover have "length h' = length h + length (x # xs)" using l by simp
  moreover have "[length h..<length h + length (x # xs)] =
      length h # [length ?h1..<length ?h1 + length xs]"
    by (simp add: upt_conv_Cons del: upt_Suc)
  then have "rs = map SRef [length h..<length h + length (x # xs)]"
    using rs r by (simp del: upt_Suc)
  ultimately show ?case by simp
qed

lemma copyEach_fresh: "copyEach h xs = (h', rs) \<Longrightarrow> list_all (fresh (length h)) rs"
proof -
  assume "copyEach h xs = (h', rs)"
  from copyEach_shape [OF this] have "rs = map SRef [length h..<length h + length xs]" by simp
  then show ?thesis by (simp add: list_all_iff)
qed

lemma fresh_mono: "n \<le> m \<Longrightarrow> fresh m v \<Longrightarrow> fresh n v"
  by (cases v) simp_all

lemma list_all_fresh_mono: "n \<le> m \<Longrightarrow> list_all (fresh m) rs \<Longrightarrow> list_all (fresh n) rs"
  by (auto simp: list_all_iff intro: fresh_mono)

lemma copyParameters_s_shape:
  assumes "copyParameters_s h ps = Inr (h2, r)"
  shows "preserves h h2"
    and "\<exists>b rs. r = SRef b \<and> length h \<le> b \<and> cell_at h2 b = Some (Array rs)
           \<and> list_all (fresh (length h)) rs"
proof -
  let ?h1 = "if truthy_s ps then h else h @ [Array []]"
  let ?a = "if truthy_s ps then ps else SRef (length h)"
  from assms obtain b xs h' rs where a: "?a = SRef b" and x: "cell_at ?h1 b = Some (Array xs)"
    and c: "copyEach ?h1 xs = (h', rs)" and h2: "h2 = h' @ [Array rs]" and r: "r = SRef (length h')"
    by (auto simp: copyParameters_s_def Let_def split: sval.splits option.splits cell.splits prod.splits)
  have p1: "preserves h ?h1" by (simp add: preserves_refl preserves_append)
  from copyEach_shape [OF c] have p2: "preserves ?h1 h'" by simp
  have p3: "preserves h' h2" using h2 by (simp add: preserves_append)
  show "preserves h h2"
    using preserves_trans [OF preserves_trans [OF p1 p2] p3] .
  have l: "length h \<le> length ?h1" by simp
  from p2 have l2: "length ?h1 \<le> length h'" by (simp add: preserves_def)
  have "list_all (fresh (length h)) rs"
    using list_all_fresh_mono [OF l copyEach_fresh [OF c]] .
  moreover have "cell_at h2 (length h') = Some (Array rs)"
    using h2 by (simp add: cell_at_def)
  moreover have "length h \<le> length h'" using l l2 by simp
  ultimately show "\<exists>b rs. r = SRef b \<and> length h \<le> b \<and> cell_at h2 b = Some (Array rs)
           \<and> list_all (fresh (length h)) rs"
    using r by blast
qed

lemma selectProcess_s_preserves:
  "preserves (store s) (store (state_of (selectProcess_s s p)))
   \<and> processes_s (state_of (selectProcess_s s p)) = processes_s s"
proof -
  let ?h1 = "store s @ [Object (spread_s (store s) p)]"
  have a: "preserves (store s) ?h1" by (rule preserves_append)
  show ?thesis
  proof (cases "copyParameters_s ?h1 (getProp_s ?h1 p ''parameters'')")
    case (Inl e)
    with a show ?thesis by (simp add: selectProcess_s_def Let_def)
  next
    case (Inr hr)
    obtain h2 r where hr: "hr = (h2, r)" by (cases hr)
    from copyParameters_s_shape(1) [OF Inr [unfolded hr]] have "preserves ?h1 h2" .
    from preserves_trans [OF a this] a Inr hr show ?thesis
      by (simp add: selectProcess_s_def Let_def)
  qed
qed

lemma cancelEdit_s_preserves:
  "preserves (store s) (store (state_of (cancelEdit_s s)))
   \<and> processes_s (state_of (cancelEdit_s s)) = processes_s s"
proof (cases "copyParameters_s (store s) (getProp_s (store s) (selectedProcess_s s) ''parameters'')")
  case (Inl e)
  then show ?thesis by (simp add: cancelEdit_s_def preserves_refl)
next
  case (Inr hr)
  obtain h2 r where hr: "hr = (h2, r)" by (cases hr)
  from copyParameters_s_shape(1) [OF Inr [unfolded hr]] Inr hr show ?thesis
    by (simp add: cancelEdit_s_def preserves_refl)
qed

lemma selectProcess_s_drafts:
  assumes "selectProcess_s s p = Returns s1"
  shows "selectedProcess_s s1 = p"
    and "editedProcess_s s1 = SRef (length (store s))"
    and "cell_at (store s1) (length (store s)) = Some (Object (spread_s (store s) p))"
    and "drafts_new (length (store s)) s1"
proof -
  let ?h1 = "store s @ [Object (spread_s (store s) p)]"
  from assms obtain h2 r where c: "copyParameters_s ?h1 (getProp_s ?h1 p ''parameters'') = Inr (h2, r)"
    and s1: "s1 = s\<lparr>selectedProcess_s := p, store := h2,
                     editedProcess_s := SRef (length (store s)), editedParameters_s := r\<rparr>"
    by (auto simp: selectProcess_s_def Let_def split: if_splits sum.splits prod.splits)
  from copyParameters_s_shape [OF c] obtain b rs where p: "preserves ?h1 h2"
    and r: "r = SRef b" and b: "length ?h1 \<le> b" and cb: "cell_at h2 b = Some (Array rs)"
    and f: "list_all (fresh (length ?h1)) rs" by blast
  show "selectedProcess_s s1 = p" and "editedProcess_s s1 = SRef (length (store s))"
    using s1 by simp_all
  have "cell_at h2 (length (store s)) = cell_at ?h1 (length (store s))"
    using preserves_cell [OF p, of "length (store s)"] by simp
  then show "cell_at (store s1) (length (store s)) = Some (Object (spread_s (store s) p))"
    using s1 by (simp add: cell_at_def)
  have "list_all (fresh (length (store s))) rs"
    using list_all_fresh_mono [OF _ f, of "length (store s)"] by simp
  with r b cb s1 show "drafts_new (length (store s)) s1"
    by (simp add: drafts_new_def)
qed

lemma assignProp_fresh:
  assumes "assignProp h ob k v = Inr h'" and "fresh n ob"
  shows "take n h' = take n h" and "length h' = length h"
    and "cell_at h b = Some (Array rs) \<Longrightarrow> cell_at h' b = Some (Array rs)"
proof -
  from assms(2) obtain a where ob: "ob = SRef a" and a: "n \<le> a" by (cases ob) simp_all
  show "take n h' = take n h" and "length h' = length h"
    using assms(1) ob a
    by (auto simp: assignProp_def split: option.splits cell.splits)
  show "cell_at h' b = Some (Array rs)" if "cell_at h b = Some (Array rs)"
  proof (cases "cell_at h a")
    case None
    with assms(1) ob that show ?thesis by (simp add: assignProp_def)
  next
    case (Some c)
    show ?thesis
    proof (cases c)
      case (Array xs)
      with Some assms(1) ob that show ?thesis by (simp add: assignProp_def)
    next
      case (Object kvs)
      with Some assms(1) ob have h': "h' = h[a := Object (set_own_s kvs k v)]"
        by (simp add: assignProp_def)
      from Some Object that have "a \<noteq> b" by auto
      with that h' show ?thesis by (auto simp: cell_at_def split: if_splits)
    qed
  qed
qed

lemma write_draft_frame:
  assumes "drafts_new n s"
  shows "take n (store (state_of (write_draft s w))) = take n (store s)
   \<and> length (store (state_of (write_draft s w))) = length (store s)
   \<and> processes_s (state_of (write_draft s w)) = processes_s s
   \<and> drafts_new n (state_of (write_draft s w))"
proof -
  from assms obtain b rs where ep: "fresh n (editedProcess_s s)"
    and r: "editedParameters_s s = SRef b" and b: "n \<le> b"
    and cb: "cell_at (store s) b = Some (Array rs)" and f: "list_all (fresh n) rs"
    by (auto simp: drafts_new_def split: sval.splits option.splits cell.splits)
  have keep: "drafts_new n (s\<lparr>store := h'\<rparr>)"
    if "cell_at h' b = Some (Array rs)" for h'
    using that ep r b f by (simp add: drafts_new_def)
  show ?thesis
  proof (cases w)
    case (DraftField k v)
    show ?thesis
    proof (cases "assignProp (store s) (editedProcess_s s) k v")
      case (Inl e)
      with DraftField assms show ?thesis by simp
    next
      case (Inr h')
      from assignProp_fresh [OF Inr ep] cb keep Inr DraftField show ?thesis by simp
    qed
  next
    case (DraftParam j k v)
    let ?el = "getIndex_s (store s) (editedParameters_s s) j"
    show ?thesis
    proof (cases "assignProp (store s) ?el k v")
      case (Inl e)
      with DraftParam assms r show ?thesis by simp
    next
      case (Inr h')
      have "?el \<noteq> SUndefined"
        using Inr by (auto simp: assignProp_def)
      with r cb have "j < length rs" and "?el = rs ! j"
        by (auto simp: getIndex_s_def split: if_splits)
      with f have "fresh n ?el" by (simp add: list_all_length)
      from assignProp_fresh [OF Inr this] cb keep Inr DraftParam r show ?thesis by simp
    qed
  qed
qed

lemma write_drafts_frame:
  "drafts_new n s \<Longrightarrow>
   take n (store (write_drafts s ws)) = take n (store s)
   \<and> length (store (write_drafts s ws)) = length (store s)
   \<and> processes_s (write_drafts s ws) = processes_s s
   \<and> drafts_new n (write_drafts s ws)"
proof (induction ws arbitrary: s)
  case Nil
  then show ?case by simp
next
  case (Cons w ws)
  from write_draft_frame [OF Cons.prems, of w] Cons.IH [of "state_of (write_draft s w)"]
  show ?case by simp
qed


lemma spread_s_preserves: "preserves h h' \<Longrightarrow> in_store h x \<Longrightarrow> spread_s h' x = spread_s h x"
  by (cases x) (simp_all add: spread_s_def preserves_cell)

lemma getProp_s_preserves:
  "preserves h h' \<Longrightarrow> in_store h x \<Longrightarrow> getProp_s h' x k = getProp_s h x k"
  by (cases x) (simp_all add: getProp_s_def preserves_cell)

lemma copyEach_content:
  "list_all (in_store h0) xs \<Longrightarrow> preserves h0 h \<Longrightarrow> copyEach h xs = (h', rs) \<Longrightarrow>
   j < length xs \<Longrightarrow> cell_at h' (length h + j) = Some (Object (spread_s h0 (xs ! j)))"
proof (induction xs arbitrary: h h' rs j)
  case Nil
  then show ?case by simp
next
  case (Cons x xs)
  let ?h1 = "h @ [Object (spread_s h x)]"
  from Cons.prems obtain rs' where c: "copyEach ?h1 xs = (h', rs')"
    by (auto simp: Let_def split: prod.splits)
  have p1: "preserves h0 ?h1"
    using preserves_trans [OF Cons.prems(2) preserves_append] .
  from Cons.prems(1) have ix: "in_store h0 x" and ixs: "list_all (in_store h0) xs" by simp_all
  show ?case
  proof (cases j)
    case 0
    from copyEach_shape [OF c] have "preserves ?h1 h'" by simp
    from preserves_cell [OF this, of "length h"]
    have "cell_at h' (length h) = Some (Object (spread_s h x))"
      by (simp add: cell_at_def)
    with 0 spread_s_preserves [OF Cons.prems(2) ix] show ?thesis by simp
  next
    case (Suc m)
    with Cons.prems(4) have "m < length xs" by simp
    from Cons.IH [OF ixs p1 c this] Suc show ?thesis by simp
  qed
qed

lemma selectProcess_s_copies:
  assumes p: "in_store (store s) p"
    and ps: "getProp_s (store s) p ''parameters'' = SRef a"
    and xs: "cell_at (store s) a = Some (Array xs)"
    and ins: "list_all (in_store (store s)) xs"
  shows "\<exists>s1 b. selectProcess_s s p = Returns s1
           \<and> editedParameters_s s1 = SRef b
           \<and> cell_at (store s1) b =
                Some (Array (map SRef [Suc (length (store s))..<Suc (length (store s)) + length xs]))
           \<and> (\<forall>j<length xs. cell_at (store s1) (Suc (length (store s)) + j) =
                  Some (Object (spread_s (store s) (xs ! j))))"
proof -
  let ?h = "store s"
  let ?h1 = "?h @ [Object (spread_s ?h p)]"
  have p1: "preserves ?h ?h1" by (rule preserves_append)
  have np: "\<not> nullish_s p" using ps by (cases p) (simp_all add: getProp_s_def)
  have g: "getProp_s ?h1 p ''parameters'' = SRef a"
    using getProp_s_preserves [OF p1 p] ps by simp
  from xs have a: "a < length ?h" by (simp add: cell_at_def split: if_splits)
  have x1: "cell_at ?h1 a = Some (Array xs)"
    using preserves_cell [OF p1 a] xs by simp
  obtain h' rs where c: "copyEach ?h1 xs = (h', rs)" by (cases "copyEach ?h1 xs")
  from copyEach_shape [OF c] have ph: "preserves ?h1 h'"
    and lh: "length h' = length ?h1 + length xs"
    and rs: "rs = map SRef [length ?h1..<length ?h1 + length xs]" by simp_all
  let ?s1 = "s\<lparr>selectedProcess_s := p, store := h' @ [Array rs],
                 editedProcess_s := SRef (length ?h), editedParameters_s := SRef (length h')\<rparr>"
  have cp: "copyParameters_s ?h1 (SRef a) = Inr (h' @ [Array rs], SRef (length h'))"
    using x1 c by (simp add: copyParameters_s_def Let_def)
  have r: "selectProcess_s s p = Returns ?s1"
    using np g cp by (simp add: selectProcess_s_def Let_def)
  have "cell_at (store ?s1) (length h') = Some (Array rs)"
    by (simp add: cell_at_def)
  moreover have "cell_at (store ?s1) (Suc (length ?h) + j) = Some (Object (spread_s ?h (xs ! j)))"
    if j: "j < length xs" for j
  proof -
    from copyEach_content [OF ins p1 c j]
    have "cell_at h' (length ?h1 + j) = Some (Object (spread_s ?h (xs ! j)))" .
    moreover have "length ?h1 + j < length h'" using lh j by simp
    ultimately show ?thesis by (simp add: cell_at_def nth_append)
  qed
  ultimately show ?thesis using r rs by (intro exI [of _ ?s1] exI [of _ "length h'"]) simp
qed

text \<open>
  C6 (amended). selectProcess(p) keeps p as the selection, makes the draft of the
  metadata a new object with the own properties of p, values as they are (a shallow
  copy, so the draft and p share the parameters array), and makes the draft of the
  parameters a new array of new objects, one shallow copy per parameter of p, in order.
  Neither selectProcess nor cancelEdit writes to an object that existed before: every
  such object, and the reference to the main list, is afterwards what it was. The same
  holds after any series of assignments to properties of the metadata draft and to
  properties of the objects in the parameters draft, and after cancelEdit following
  them: selectProcess(p), edits of the drafts and cancelEdit() leave p, its parameters
  and the main list unchanged.
\<close>

theorem selectProcess_s_shallow:
  "preserves (store s) (store (state_of (selectProcess_s s p)))
   \<and> processes_s (state_of (selectProcess_s s p)) = processes_s s
   \<and> preserves (store s) (store (state_of (cancelEdit_s s)))
   \<and> processes_s (state_of (cancelEdit_s s)) = processes_s s
   \<and> (selectProcess_s s p = Returns s1 \<longrightarrow>
        selectedProcess_s s1 = p
        \<and> editedProcess_s s1 = SRef (length (store s))
        \<and> cell_at (store s1) (length (store s)) = Some (Object (spread_s (store s) p))
        \<and> drafts_new (length (store s)) s1
        \<and> preserves (store s) (store (write_drafts s1 ws))
        \<and> processes_s (write_drafts s1 ws) = processes_s s
        \<and> preserves (store s) (store (state_of (cancelEdit_s (write_drafts s1 ws))))
        \<and> processes_s (state_of (cancelEdit_s (write_drafts s1 ws))) = processes_s s)
   \<and> (in_store (store s) p \<longrightarrow> getProp_s (store s) p ''parameters'' = SRef a \<longrightarrow>
        cell_at (store s) a = Some (Array xs) \<longrightarrow> list_all (in_store (store s)) xs \<longrightarrow>
        (\<exists>s' b. selectProcess_s s p = Returns s'
           \<and> editedParameters_s s' = SRef b
           \<and> cell_at (store s') b =
                Some (Array (map SRef [Suc (length (store s))..<Suc (length (store s)) + length xs]))
           \<and> (\<forall>j<length xs. cell_at (store s') (Suc (length (store s)) + j) =
                  Some (Object (spread_s (store s) (xs ! j))))))"
proof (intro conjI impI)
  show "preserves (store s) (store (state_of (selectProcess_s s p)))"
    and "processes_s (state_of (selectProcess_s s p)) = processes_s s"
    using selectProcess_s_preserves [of s p] by simp_all
  show "preserves (store s) (store (state_of (cancelEdit_s s)))"
    and "processes_s (state_of (cancelEdit_s s)) = processes_s s"
    using cancelEdit_s_preserves [of s] by simp_all
next
  assume r: "selectProcess_s s p = Returns s1"
  note d = selectProcess_s_drafts [OF r]
  show "selectedProcess_s s1 = p" and "editedProcess_s s1 = SRef (length (store s))"
    and "cell_at (store s1) (length (store s)) = Some (Object (spread_s (store s) p))"
    and "drafts_new (length (store s)) s1"
    using d by simp_all
  from selectProcess_s_preserves [of s p] r have p1: "preserves (store s) (store s1)"
    and l1: "processes_s s1 = processes_s s" by simp_all
  let ?s2 = "write_drafts s1 ws"
  from write_drafts_frame [OF d(4), of ws]
  have t: "take (length (store s)) (store ?s2) = take (length (store s)) (store s1)"
    and l: "length (store ?s2) = length (store s1)" and l2: "processes_s ?s2 = processes_s s1"
    by simp_all
  from p1 t l show p2: "preserves (store s) (store ?s2)"
    by (simp add: preserves_def)
  from l1 l2 show "processes_s ?s2 = processes_s s" by simp
  from preserves_trans [OF p2] cancelEdit_s_preserves [of ?s2]
  show "preserves (store s) (store (state_of (cancelEdit_s ?s2)))" by simp
  from cancelEdit_s_preserves [of ?s2] l1 l2
  show "processes_s (state_of (cancelEdit_s ?s2)) = processes_s s" by simp
next
  assume "in_store (store s) p" and "getProp_s (store s) p ''parameters'' = SRef a"
    and "cell_at (store s) a = Some (Array xs)" and "list_all (in_store (store s)) xs"
  then show "\<exists>s' b. selectProcess_s s p = Returns s'
           \<and> editedParameters_s s' = SRef b
           \<and> cell_at (store s') b =
                Some (Array (map SRef [Suc (length (store s))..<Suc (length (store s)) + length xs]))
           \<and> (\<forall>j<length xs. cell_at (store s') (Suc (length (store s)) + j) =
                  Some (Object (spread_s (store s) (xs ! j))))"
    by (rule selectProcess_s_copies)
qed

lemma exampleSelected_is: "selectProcess_s exampleSession (SRef 1) = Returns exampleSelected"
  by (simp add: selectProcess_s_def exampleSession_def exampleSelected_def exampleStore_def
      Let_def spread_s_def getProp_s_def cell_at_def own_s_def copyParameters_s_def)

theorem selectProcess_s_shallow_witness:
  "selectProcess_s exampleSession (SRef 1) = Returns exampleSelected
   \<and> preserves (store exampleSession) (store (state_of (selectProcess_s exampleSession (SRef 1))))
   \<and> drafts_new (length (store exampleSession)) exampleSelected
   \<and> preserves (store exampleSession)
        (store (state_of (cancelEdit_s (write_drafts exampleSelected
           [DraftField ''name'' (SStr ''Alta''), DraftParam 0 ''value'' (SStr ''7'')]))))
   \<and> in_store (store exampleSession) (SRef 1)
   \<and> getProp_s (store exampleSession) (SRef 1) ''parameters'' = SRef 2
   \<and> cell_at (store exampleSession) 2 = Some (Array [SRef 3])
   \<and> list_all (in_store (store exampleSession)) [SRef 3]"
proof -
  have a: "in_store (store exampleSession) (SRef 1)"
    "getProp_s (store exampleSession) (SRef 1) ''parameters'' = SRef 2"
    "cell_at (store exampleSession) 2 = Some (Array [SRef 3])"
    "list_all (in_store (store exampleSession)) [SRef 3]"
    by (simp_all add: exampleSession_def exampleStore_def getProp_s_def cell_at_def own_s_def)
  show ?thesis
    using selectProcess_s_shallow [of exampleSession "SRef 1" exampleSelected
        "[DraftField ''name'' (SStr ''Alta''), DraftParam 0 ''value'' (SStr ''7'')]" 2 "[SRef 3]"]
      exampleSelected_is a
    by blast
qed

text \<open>
  The copies are not independent of the entry. After \<^verbatim>\<open>selectProcess\<close> the draft's
  \<^verbatim>\<open>parameters\<close> is the very array of the entry, and
  \<^verbatim>\<open>this.editedProcess.parameters[0].value = '0'\<close> changes the parameter of the entry
  in the list, with no save.
\<close>

theorem selectProcess_s_alias:
  "selectProcess_s exampleSession (SRef 1) = Returns exampleSelected
   \<and> getProp_s (store exampleSession) (SRef 1) ''parameters'' = SRef 2
   \<and> getProp_s (store exampleSelected) (editedProcess_s exampleSelected) ''parameters'' = SRef 2
   \<and> writeThroughDraft exampleSelected = Inr exampleMutated
   \<and> getProp_s (store exampleSession)
        (getIndex_s (store exampleSession) (getProp_s (store exampleSession) (SRef 1) ''parameters'') 0)
        ''value'' = SStr ''42''
   \<and> getProp_s exampleMutated
        (getIndex_s exampleMutated (getProp_s exampleMutated (SRef 1) ''parameters'') 0)
        ''value'' = SStr ''0''
   \<and> \<not> preserves (store exampleSession) exampleMutated"
proof (intro conjI)
  show "selectProcess_s exampleSession (SRef 1) = Returns exampleSelected"
    by (rule exampleSelected_is)
qed (simp_all add: exampleSession_def exampleSelected_def exampleStore_def exampleMutated_def
      writeThroughDraft_def assignProp_def getProp_s_def getIndex_s_def cell_at_def own_s_def
      preserves_def)

subsection \<open>The payload of the update\<close>








subsection \<open>The answer of the update\<close>



lemma findIndex_Some:
  "findIndex f xs = Some idx \<Longrightarrow> idx < length xs \<and> f (xs ! idx) \<and> (\<forall>j<idx. \<not> f (xs ! j))"
proof (induction xs arbitrary: idx)
  case Nil
  then show ?case by simp
next
  case (Cons x xs)
  show ?case
  proof (cases "f x")
    case True
    with Cons.prems show ?thesis by simp
  next
    case False
    with Cons.prems obtain m where m: "findIndex f xs = Some m" and idx: "idx = Suc m"
      by auto
    from Cons.IH [OF m] False idx show ?thesis
      by (auto simp: less_Suc_eq_0_disj)
  qed
qed



section \<open>Time formatter: properties\<close>

lemma strip_zeros_value:
  "0 < m \<Longrightarrow> strip_zeros m e = (s, e') \<Longrightarrow>
   0 < s \<and> e \<le> e' \<and> m = s * 10 ^ nat (e' - e)"
proof (induction m e arbitrary: s e' rule: strip_zeros.induct)
  case (1 m e)
  show ?case
  proof (cases "m mod 10 = 0")
    case False
    with "1.prems" show ?thesis by (simp add: strip_zeros.simps [of m e])
  next
    case True
    with "1.prems" have r: "strip_zeros (m div 10) (e + 1) = (s, e')"
      by (simp add: strip_zeros.simps [of m e])
    from True "1.prems"(1) have p: "0 < m div 10" and m: "m = (m div 10) * 10"
      by auto
    from "1.IH" [OF _ p r] True "1.prems"(1)
    have s: "0 < s" and e: "e + 1 \<le> e'" and v: "m div 10 = s * 10 ^ nat (e' - (e + 1))"
      by simp_all
    from e have "nat (e' - e) = Suc (nat (e' - (e + 1)))" by simp
    with m v have "m = s * 10 ^ nat (e' - e)" by simp
    with s e show ?thesis by simp
  qed
qed

lemma digit_char_0: "digit_char 0 = CHR ''0''"
  by (simp add: digit_char_def)

lemma showNat_step: "10 \<le> n \<Longrightarrow> showNat n = showNat (n div 10) @ [digit_char (n mod 10)]"
  by (subst showNat.simps) simp

lemma showNat_digit: "n < 10 \<Longrightarrow> showNat n = [digit_char n]"
  by (subst showNat.simps) simp

lemma showNat_shift: "0 < s \<Longrightarrow> showNat (s * 10 ^ j) = showNat s @ replicate j CHR ''0''"
proof (induction j)
  case 0
  then show ?case by simp
next
  case (Suc j)
  let ?n = "s * 10 ^ j"
  have "1 \<le> ?n" using Suc.prems by simp
  then have "10 * 1 \<le> 10 * ?n" by (rule mult_le_mono2)
  then have g: "10 \<le> 10 * ?n" by simp
  have "showNat (10 * ?n) = showNat ((10 * ?n) div 10) @ [digit_char ((10 * ?n) mod 10)]"
    using g by (rule showNat_step)
  also have "(10 * ?n) div 10 = ?n" by simp
  also have "(10 * ?n) mod 10 = 0" by simp
  finally have "showNat (10 * ?n) = showNat ?n @ [CHR ''0'']"
    by (simp only: digit_char_0)
  moreover have "s * 10 ^ Suc j = 10 * ?n" by simp
  ultimately show ?case using Suc by (simp only: replicate_append_same [symmetric] replicate_Suc append_assoc)
qed

lemma length_showNat: "m < 10 ^ Suc k \<Longrightarrow> length (showNat m) \<le> Suc k"
proof (induction k arbitrary: m)
  case 0
  then show ?case by (simp add: showNat_digit)
next
  case (Suc k)
  show ?case
  proof (cases "m < 10")
    case True
    then show ?thesis by (simp add: showNat_digit)
  next
    case False
    from Suc.prems have "m div 10 < 10 ^ Suc k" by (simp add: less_mult_imp_div_less)
    from Suc.IH [OF this] False show ?thesis by (simp add: showNat_step)
  qed
qed

lemma showPos_integer:
  assumes m: "0 < m" and b: "m < 10 ^ 21"
  shows "showPos m 0 = showNat m"
proof -
  obtain s e' where z: "strip_zeros m 0 = (s, e')" by (cases "strip_zeros m 0")
  from strip_zeros_value [OF m z] have s: "0 < s" and e: "0 \<le> e'"
    and v: "m = s * 10 ^ nat e'" by simp_all
  have sh: "showNat m = showNat s @ replicate (nat e') CHR ''0''"
    using showNat_shift [OF s, of "nat e'"] v by simp
  have "length (showNat m) \<le> 21"
    using length_showNat [of m 20] b by simp
  with sh have l: "int (length (showNat s)) + e' \<le> 21" using e by simp
  from e l have c: "int (length (showNat s)) \<le> e' + int (length (showNat s))
      \<and> e' + int (length (showNat s)) \<le> 21" by simp
  have "showPos m 0 = showNat s @ replicate (nat e') CHR ''0''"
    unfolding showPos_def z using c by (simp add: Let_def)
  with sh show ?thesis by simp
qed

lemma showNat_0: "showNat 0 = ''0''"
  by (simp add: showNat_digit digit_char_0)

lemma numToString_integer: "\<bar>d\<bar> < 10 ^ 21 \<Longrightarrow> numToString (Dec d 0) = showInt d"
proof -
  assume b: "\<bar>d\<bar> < 10 ^ 21"
  consider "d = 0" | "d < 0" | "0 < d" by linarith
  then show ?thesis
  proof cases
    case 1
    then show ?thesis by (simp add: numToString.simps showInt_def showNat_0)
  next
    case 2
    with b have "0 < nat (- d)" and "nat (- d) < 10 ^ 21" by simp_all
    from showPos_integer [OF this] 2 show ?thesis by (simp add: numToString.simps showInt_def)
  next
    case 3
    with b have "0 < nat d" and "nat d < 10 ^ 21" by simp_all
    from showPos_integer [OF this] 3 show ?thesis by (simp add: numToString.simps showInt_def)
  qed
qed

lemma numToString_1: "numToString (Dec 1 0) = ''1''"
  by (simp add: numToString.simps showPos_def strip_zeros.simps showNat.simps digit_char_def)

lemma formatTimeAgo_valid:
  "s \<noteq> '''' \<Longrightarrow> parseDate s = Some t \<Longrightarrow>
   formatTimeAgo parseDate now (Some s) =
     (let d = (now - t) div 1000; m = d div 60; h = m div 60 in
      if d < 60 then ''Hace '' @ numToString (Dec d 0) @ '' seg''
      else if m < 60 then ''Hace '' @ numToString (Dec m 0) @ '' min''
      else if h < 24 then ''Hace '' @ numToString (Dec h 0) @ '' h''
      else ''Hace '' @ numToString (Dec (h div 24) 0) @ '' d'')"
  by (simp only: formatTimeAgo_def Let_def option.case if_False)

text \<open>
  C9. formatTimeAgo returns the empty string for a null or absent timestamp. For a
  timestamp that parses to the time \<open>t\<close>, with \<open>d\<close> the floor of the elapsed seconds,
  it returns "Hace d seg" when \<open>d < 60\<close>, else "Hace m min" with \<open>m = d div 60\<close> when
  \<open>m < 60\<close>, else "Hace h h" with \<open>h = m div 60\<close> when \<open>h < 24\<close>, else "Hace (h div 24) d";
  a timestamp 90 seconds in the past gives "Hace 1 min". The numbers are printed as
  JavaScript prints them, which for an integer below \<open>10 ^ 21\<close> in magnitude is its
  decimal digits. The empty string is treated as absent, and a timestamp that does not
  parse gives "Hace NaN d".
\<close>

theorem formatTimeAgo_units:
  "formatTimeAgo parseDate now None = ''''
   \<and> (s \<noteq> '''' \<longrightarrow> parseDate s = Some t \<longrightarrow>
        formatTimeAgo parseDate now (Some s) =
          (let d = (now - t) div 1000; m = d div 60; h = m div 60 in
           if d < 60 then ''Hace '' @ numToString (Dec d 0) @ '' seg''
           else if m < 60 then ''Hace '' @ numToString (Dec m 0) @ '' min''
           else if h < 24 then ''Hace '' @ numToString (Dec h 0) @ '' h''
           else ''Hace '' @ numToString (Dec (h div 24) 0) @ '' d''))
   \<and> (s \<noteq> '''' \<longrightarrow> parseDate s = Some t \<longrightarrow> now - t = 90000 \<longrightarrow>
        formatTimeAgo parseDate now (Some s) = ''Hace 1 min'')
   \<and> (\<bar>x\<bar> < 10 ^ 21 \<longrightarrow> numToString (Dec x 0) = showInt x)
   \<and> formatTimeAgo parseDate now (Some '''') = ''''
   \<and> (s \<noteq> '''' \<longrightarrow> parseDate s = None \<longrightarrow>
        formatTimeAgo parseDate now (Some s) = ''Hace NaN d'')"
proof (intro conjI impI)
  show "formatTimeAgo parseDate now None = ''''"
    by (simp add: formatTimeAgo_def)
  show "formatTimeAgo parseDate now (Some '''') = ''''"
    by (simp add: formatTimeAgo_def)
  show "numToString (Dec x 0) = showInt x" if "\<bar>x\<bar> < 10 ^ 21"
    using that by (rule numToString_integer)
  show "formatTimeAgo parseDate now (Some s) = ''Hace NaN d''"
    if "s \<noteq> ''''" and "parseDate s = None"
    using that by (simp add: formatTimeAgo_def numToString.simps)
next
  assume "s \<noteq> ''''" and "parseDate s = Some t"
  then show "formatTimeAgo parseDate now (Some s) =
          (let d = (now - t) div 1000; m = d div 60; h = m div 60 in
           if d < 60 then ''Hace '' @ numToString (Dec d 0) @ '' seg''
           else if m < 60 then ''Hace '' @ numToString (Dec m 0) @ '' min''
           else if h < 24 then ''Hace '' @ numToString (Dec h 0) @ '' h''
           else ''Hace '' @ numToString (Dec (h div 24) 0) @ '' d'')"
    by (rule formatTimeAgo_valid)
next
  assume "s \<noteq> ''''" and "parseDate s = Some t" and "now - t = 90000"
  then show "formatTimeAgo parseDate now (Some s) = ''Hace 1 min''"
    using formatTimeAgo_valid [of s parseDate t now] by (simp add: Let_def numToString_1)
qed

theorem formatTimeAgo_units_witness:
  "formatTimeAgo (\<lambda>_. Some 1000) 91000 None = ''''
   \<and> formatTimeAgo (\<lambda>_. Some 1000) 91000 (Some ''2024-05-01T10:00:00Z'') = ''Hace 1 min''
   \<and> ''2024-05-01T10:00:00Z'' \<noteq> ''''
   \<and> numToString (Dec 59 0) = ''59''"
  using formatTimeAgo_units [of "\<lambda>_. Some 1000" 91000 "''2024-05-01T10:00:00Z''" 1000 59]
  by (simp add: numToString_1 showInt_def showNat_step showNat_digit digit_char_def)

end
